theory Spec2Isabelle
  imports Main "HOL-Library.Word"
begin

section \<open>Machine types\<close>

text \<open>
  The C sources use fixed-width unsigned integers throughout: \<open>u32\<close>/\<open>uint32_t\<close>,
  \<open>u64\<close>/\<open>uint64_t\<close>, and \<open>size_t\<close> (64 bits on the LP64/LLP64 targets the driver and
  the simulators are built for).  The kernel's \<open>atomic_t\<close> and \<open>atomic64_t\<close> counters are
  two's-complement cells that wrap; every comparison the code makes on them is against an
  unsigned operand, so they are read as unsigned words here.
\<close>

type_synonym u8 = "8 word"
type_synonym u32 = "32 word"
type_synonym u64 = "64 word"

section \<open>Statistics block (kernel/common.h, lib/types.h)\<close>

record pcie_sim_stats =
  total_transfers :: u64
  total_bytes :: u64
  total_errors :: u64
  avg_latency_ns :: u64
  min_latency_ns :: u64
  max_latency_ns :: u64

text \<open>\<open>memset(&stats, 0, sizeof(stats))\<close>, as done by the kernel probe, the kernel reset
  ioctl, and the Linux simulator's open and reset.\<close>

definition zero_stats :: pcie_sim_stats where
  "zero_stats = \<lparr>total_transfers = 0, total_bytes = 0, total_errors = 0,
                 avg_latency_ns = 0, min_latency_ns = 0, max_latency_ns = 0\<rparr>"

definition UINT64_MAX :: u64 where
  "UINT64_MAX = - 1"

section \<open>Kernel backend: kernel/dma.c\<close>

text \<open>Kernel return codes are \<open>0\<close> or a negated errno.\<close>

definition EFAULT :: int where "EFAULT = 14"
definition ENOMEM :: int where "ENOMEM = 12"
definition EINVAL :: int where "EINVAL = 22"
definition ENOSPC :: int where "ENOSPC = 28"
definition ENODATA :: int where "ENODATA = 61"

text \<open>
  \<open>struct pcie_sim_transfer_req\<close>.  The user pointer \<open>buffer\<close> is \<open>None\<close> when it is
  \<open>NULL\<close> and otherwise carries the bytes of user memory that are accessible from it:
  \<open>copy_from_user\<close>/\<open>copy_to_user\<close> of \<open>n\<close> bytes fault exactly when fewer than \<open>n\<close>
  bytes are accessible.
\<close>

record pcie_sim_transfer_req =
  buffer :: "u8 list option"
  size_req :: u64
  direction :: u32
  latency_ns :: u64

text \<open>\<open>struct pcie_sim_device\<close>, restricted to the statistics and the error-injection
  configuration (the remaining members are kernel object handles).\<close>

record pcie_sim_device =
  stats :: pcie_sim_stats
  simulate_errors :: bool
  fault_injection_rate :: u32
  error_scenario :: u32
  error_probability :: u32
  error_recovery_time_ms :: u32
  enabled :: bool
  device_id_dev :: int

definition MIN_TRANSFER_SIZE :: u64 where "MIN_TRANSFER_SIZE = 1"
definition MAX_TRANSFER_SIZE :: u64 where "MAX_TRANSFER_SIZE = 1024 * 1024"

definition validate_transfer_request :: "pcie_sim_transfer_req \<Rightarrow> int" where
  "validate_transfer_request req =
     (if buffer req = None then - EINVAL
      else if size_req req < MIN_TRANSFER_SIZE \<or> size_req req > MAX_TRANSFER_SIZE then - EINVAL
      else if direction req > 1 then - EINVAL
      else 0)"

definition update_transfer_stats ::
  "pcie_sim_device \<Rightarrow> pcie_sim_transfer_req \<Rightarrow> u64 \<Rightarrow> bool \<Rightarrow> pcie_sim_device" where
  "update_transfer_stats dev req latency success =
     (if success then
        (let s0 = stats dev;
             s1 = s0\<lparr>total_transfers := total_transfers s0 + 1\<rparr>;
             s2 = s1\<lparr>total_bytes := total_bytes s1 + size_req req\<rparr>;
             s3 = (if min_latency_ns s2 = 0 \<or> latency < min_latency_ns s2
                   then s2\<lparr>min_latency_ns := latency\<rparr> else s2);
             s4 = (if latency > max_latency_ns s3
                   then s3\<lparr>max_latency_ns := latency\<rparr> else s3);
             s5 = s4\<lparr>avg_latency_ns := (avg_latency_ns s4 + latency) div 2\<rparr>
         in dev\<lparr>stats := s5\<rparr>)
      else dev\<lparr>stats := (stats dev)\<lparr>total_errors := total_errors (stats dev) + 1\<rparr>\<rparr>)"

text \<open>
  \<open>simulate_transfer_delay(size)\<close>: the function sleeps and returns nothing; the model
  returns the number of microseconds it asks to sleep for.  \<open>jitter\<close> is the value drawn
  from \<open>get_random_u32_below(20)\<close>.  All three addends are \<open>unsigned int\<close>; \<open>size / 1024\<close>
  is computed in \<open>size_t\<close> and then truncated.
\<close>

definition simulate_transfer_delay :: "u64 \<Rightarrow> u32 \<Rightarrow> u32" where
  "simulate_transfer_delay sz jitter_us =
     (let base_delay_us = 10;
          size_delay_us = ucast (sz div 1024)
      in base_delay_us + size_delay_us + jitter_us)"

text \<open>What the environment supplies to one call of \<open>pcie_sim_dma_transfer\<close>: whether
  \<open>kzalloc\<close> succeeds, the two \<open>ktime_get\<close> readings, and the random jitter.\<close>

record dma_env =
  alloc_ok :: bool
  start_time :: u64
  end_time :: u64
  jitter :: u32

text \<open>\<open>memset(p, c, n)\<close> on a byte region.\<close>

definition memset :: "u8 list \<Rightarrow> u8 \<Rightarrow> nat \<Rightarrow> u8 list" where
  "memset region c n = replicate n c @ drop n region"

text \<open>\<open>copy_to_user(dst, src, n)\<close>: the bytes of \<open>src\<close> land in the accessible user
  region; the result is the number of bytes that could not be copied.\<close>

definition copy_to_user :: "u8 list \<Rightarrow> u8 list \<Rightarrow> nat \<Rightarrow> nat \<times> u8 list" where
  "copy_to_user dst src n =
     (if n \<le> length dst then (0, take n src @ drop n dst)
      else (n - length dst, take (length dst) src))"

text \<open>\<open>copy_from_user(dst, src, n)\<close>: number of bytes that could not be read.\<close>

definition copy_from_user :: "u8 list \<Rightarrow> nat \<Rightarrow> nat" where
  "copy_from_user src n = (if n \<le> length src then 0 else n - length src)"

text \<open>
  \<open>pcie_sim_dma_transfer\<close>.  The result is the return code, the device after the call, the
  request after the call (user buffer and returned latency), and the microseconds handed
  to \<open>simulate_transfer_delay\<close> (\<open>None\<close> when the call never got that far).
\<close>

definition pcie_sim_dma_transfer ::
  "pcie_sim_device \<Rightarrow> pcie_sim_transfer_req \<Rightarrow> dma_env
     \<Rightarrow> int \<times> pcie_sim_device \<times> pcie_sim_transfer_req \<times> u32 option" where
  "pcie_sim_dma_transfer dev req env =
     (let ret = validate_transfer_request req in
      if ret \<noteq> 0 then (ret, update_transfer_stats dev req 0 False, req, None)
      else if \<not> alloc_ok env then (- ENOMEM, update_transfer_stats dev req 0 False, req, None)
      else
        (let n = unat (size_req req);
             user = the (buffer req);
             kernel_buf = replicate n (0 :: u8);
             latency = end_time env - start_time env
         in
         if direction req = 0 then
           (if copy_from_user user n \<noteq> 0
            then (- EFAULT, update_transfer_stats dev req 0 False, req, None)
            else
              (let d = simulate_transfer_delay (size_req req) (jitter env)
               in (0, update_transfer_stats dev req latency True,
                   req\<lparr>latency_ns := latency\<rparr>, Some d)))
         else
           (let kernel_buf' = memset kernel_buf 0xAA n;
                d = simulate_transfer_delay (size_req req) (jitter env);
                (left, user') = copy_to_user user kernel_buf' n
            in
            if left \<noteq> 0
            then (- EFAULT, update_transfer_stats dev req 0 False,
                  req\<lparr>buffer := Some user'\<rparr>, Some d)
            else (0, update_transfer_stats dev req latency True,
                  req\<lparr>buffer := Some user', latency_ns := latency\<rparr>, Some d))))"

text \<open>\<open>pcie_sim_probe\<close> (kernel/driver.c) hands out a zeroed device with \<open>enabled\<close> set.\<close>

definition pcie_sim_probe :: "int \<Rightarrow> pcie_sim_device" where
  "pcie_sim_probe device_id =
     \<lparr>stats = zero_stats, simulate_errors = False, fault_injection_rate = 0,
      error_scenario = 0, error_probability = 0, error_recovery_time_ms = 0,
      enabled = True, device_id_dev = device_id\<rparr>"

section \<open>User-space library types (lib/types.h, lib/core.c)\<close>

datatype pcie_sim_error_t =
    PCIE_SIM_SUCCESS
  | PCIE_SIM_ERROR_DEVICE
  | PCIE_SIM_ERROR_PARAM
  | PCIE_SIM_ERROR_MEMORY
  | PCIE_SIM_ERROR_TIMEOUT
  | PCIE_SIM_ERROR_SYSTEM

definition PCIE_SIM_TO_DEVICE :: u32 where "PCIE_SIM_TO_DEVICE = 0"
definition PCIE_SIM_FROM_DEVICE :: u32 where "PCIE_SIM_FROM_DEVICE = 1"

definition MAX_DEVICES :: int where "MAX_DEVICES = 8"

text \<open>\<open>struct pcie_sim_handle\<close>.  A handle pointer is an \<open>option\<close>: \<open>None\<close> is \<open>NULL\<close>.  The
  result of \<open>malloc\<close> is likewise an \<open>option\<close>, \<open>Some h0\<close> being a fresh block with
  arbitrary contents \<open>h0\<close>.\<close>

record pcie_sim_handle =
  fd :: int
  device_id :: int
  is_simulation :: int

section \<open>Linux simulation backend: sim/linux\_sim.c\<close>

text \<open>\<open>struct linux_device_state\<close> (the mutex, start time and name are not read by any
  operation modelled here) and the file-scope globals.\<close>

record linux_device_state =
  active_linux :: bool
  stats_linux :: pcie_sim_stats

record linux_globals =
  g_sim_devices :: "linux_device_state list"
  g_sim_initialized :: bool

text \<open>Static storage is zero-initialised.\<close>

definition linux_globals_init :: linux_globals where
  "linux_globals_init =
     \<lparr>g_sim_devices = replicate 8 \<lparr>active_linux = False, stats_linux = zero_stats\<rparr>,
      g_sim_initialized = False\<rparr>"

definition linux_sim_init :: "linux_globals \<Rightarrow> linux_globals" where
  "linux_sim_init g =
     (if \<not> g_sim_initialized g
      then g\<lparr>g_sim_devices := map (\<lambda>d. d\<lparr>active_linux := False\<rparr>) (g_sim_devices g),
             g_sim_initialized := True\<rparr>
      else g)"

text \<open>\<open>linux_sim_delay\<close>: the nanoseconds actually handed to \<open>nanosleep\<close>.\<close>

definition linux_sim_delay :: "u64 \<Rightarrow> u64" where
  "linux_sim_delay delay_ns = (if delay_ns < 1000 then 0 else delay_ns)"

text \<open>\<open>pcie_sim_open_linux(device_id, handle)\<close>.  \<open>handle_ptr\<close> tells whether the out
  pointer is non-\<open>NULL\<close>; \<open>mem\<close> is what \<open>malloc\<close> returns.\<close>

definition pcie_sim_open_linux ::
  "linux_globals \<Rightarrow> int \<Rightarrow> bool \<Rightarrow> pcie_sim_handle option
     \<Rightarrow> pcie_sim_error_t \<times> linux_globals \<times> pcie_sim_handle option" where
  "pcie_sim_open_linux g dev_id handle_ptr mem =
     (if \<not> handle_ptr \<or> dev_id < 0 \<or> dev_id \<ge> MAX_DEVICES then (PCIE_SIM_ERROR_PARAM, g, None)
      else
        (let g1 = linux_sim_init g in
         case mem of
           None \<Rightarrow> (PCIE_SIM_ERROR_MEMORY, g1, None)
         | Some h0 \<Rightarrow>
             (let h = h0\<lparr>fd := - 1, device_id := dev_id, is_simulation := 1\<rparr>;
                  i = nat dev_id;
                  d = g_sim_devices g1 ! i;
                  d' = (if \<not> active_linux d
                        then d\<lparr>active_linux := True, stats_linux := zero_stats\<rparr>
                        else d)
              in (PCIE_SIM_SUCCESS, g1\<lparr>g_sim_devices := (g_sim_devices g1)[i := d']\<rparr>, Some h))))"

definition pcie_sim_close_linux :: "pcie_sim_handle option \<Rightarrow> pcie_sim_error_t" where
  "pcie_sim_close_linux handle =
     (if handle = None then PCIE_SIM_ERROR_PARAM else PCIE_SIM_SUCCESS)"

text \<open>The timing model of \<open>pcie_sim_transfer_linux\<close>: the value of \<open>transfer_latency\<close>
  when it is handed to \<open>linux_sim_delay\<close>.\<close>

definition linux_transfer_latency :: "u64 \<Rightarrow> u32 \<Rightarrow> u64" where
  "linux_transfer_latency sz dir =
     (let base_latency_per_mb = 10000;
          size_mb0 = (sz + 1024 * 1024 - 1) div (1024 * 1024);
          size_mb = (if size_mb0 = 0 then 1 else size_mb0);
          transfer_latency = base_latency_per_mb * size_mb
      in if dir = PCIE_SIM_FROM_DEVICE then (transfer_latency * 12) div 10
         else transfer_latency)"

text \<open>The statistics block update of \<open>pcie_sim_transfer_linux\<close> (between the mutex lock
  and unlock), for \<open>current_latency = end_time - start_time\<close>.\<close>

definition linux_update_stats :: "pcie_sim_stats \<Rightarrow> u64 \<Rightarrow> u64 \<Rightarrow> pcie_sim_stats" where
  "linux_update_stats s0 sz current_latency =
     (let s1 = s0\<lparr>total_transfers := total_transfers s0 + 1\<rparr>;
          s2 = s1\<lparr>total_bytes := total_bytes s1 + sz\<rparr>
      in if total_transfers s2 = 1
         then s2\<lparr>avg_latency_ns := current_latency,
                 min_latency_ns := current_latency,
                 max_latency_ns := current_latency\<rparr>
         else
           (let s3 = s2\<lparr>avg_latency_ns := (avg_latency_ns s2 + current_latency) div 2\<rparr>;
                s4 = (if current_latency < min_latency_ns s3
                      then s3\<lparr>min_latency_ns := current_latency\<rparr> else s3)
            in if current_latency > max_latency_ns s4
               then s4\<lparr>max_latency_ns := current_latency\<rparr> else s4))"

text \<open>
  \<open>pcie_sim_transfer_linux\<close>.  \<open>latency_ptr\<close> tells whether the out pointer is
  non-\<open>NULL\<close>; \<open>t_start\<close> and \<open>t_end\<close> are the two clock readings.  The result is the
  error code, the globals, the value stored through \<open>latency_ns\<close>, and the nanoseconds
  slept.  The code checks only the upper bound of \<open>handle->device_id\<close>; handles made by
  \<open>pcie_sim_open_linux\<close> always carry an id in \<open>0..7\<close>.
\<close>

definition pcie_sim_transfer_linux ::
  "linux_globals \<Rightarrow> pcie_sim_handle option \<Rightarrow> u8 list option \<Rightarrow> u64 \<Rightarrow> u32 \<Rightarrow> bool
     \<Rightarrow> u64 \<Rightarrow> u64
     \<Rightarrow> pcie_sim_error_t \<times> linux_globals \<times> u64 option \<times> u64 option" where
  "pcie_sim_transfer_linux g handle buf sz dir latency_ptr t_start t_end =
     (if handle = None \<or> buf = None \<or> sz = 0 \<or> device_id (the handle) \<ge> MAX_DEVICES
      then (PCIE_SIM_ERROR_PARAM, g, None, None)
      else
        (let i = nat (device_id (the handle));
             slept = linux_sim_delay (linux_transfer_latency sz dir);
             d = g_sim_devices g ! i;
             d' = d\<lparr>stats_linux := linux_update_stats (stats_linux d) sz (t_end - t_start)\<rparr>
         in (PCIE_SIM_SUCCESS, g\<lparr>g_sim_devices := (g_sim_devices g)[i := d']\<rparr>,
             (if latency_ptr then Some (t_end - t_start) else None), Some slept)))"

definition pcie_sim_reset_stats_linux ::
  "linux_globals \<Rightarrow> pcie_sim_handle option \<Rightarrow> pcie_sim_error_t \<times> linux_globals" where
  "pcie_sim_reset_stats_linux g handle =
     (if handle = None \<or> device_id (the handle) \<ge> MAX_DEVICES then (PCIE_SIM_ERROR_PARAM, g)
      else
        (let i = nat (device_id (the handle));
             d = g_sim_devices g ! i
         in (PCIE_SIM_SUCCESS,
             g\<lparr>g_sim_devices := (g_sim_devices g)[i := d\<lparr>stats_linux := zero_stats\<rparr>]\<rparr>)))"

section \<open>Windows simulation backend: sim/windows\_sim.c\<close>

record windows_device_state =
  active_win :: bool
  stats_win :: pcie_sim_stats

record windows_globals =
  g_devices :: "windows_device_state list"
  g_initialized :: bool

definition windows_globals_init :: windows_globals where
  "windows_globals_init =
     \<lparr>g_devices = replicate 8 \<lparr>active_win = False, stats_win = zero_stats\<rparr>,
      g_initialized = False\<rparr>"

text \<open>The statistics a device gets in \<open>windows_sim_init\<close> and in
  \<open>pcie_sim_reset_stats_impl\<close>: all zero, except \<open>min_latency_ns = UINT64_MAX\<close>.\<close>

definition windows_fresh_stats :: pcie_sim_stats where
  "windows_fresh_stats = zero_stats\<lparr>min_latency_ns := UINT64_MAX\<rparr>"

text \<open>The loop of \<open>windows_sim_init\<close> over the device slots; \<open>mutex_ok i\<close> tells whether
  \<open>CreateMutex\<close> succeeds for slot \<open>i\<close>.  The loop stops at the first failure.\<close>

fun windows_sim_init_loop ::
  "(nat \<Rightarrow> bool) \<Rightarrow> nat list \<Rightarrow> windows_device_state list \<Rightarrow> bool \<times> windows_device_state list" where
  "windows_sim_init_loop mutex_ok [] devs = (True, devs)"
| "windows_sim_init_loop mutex_ok (i # is) devs =
     (let devs1 = devs[i := (devs ! i)\<lparr>active_win := False\<rparr>] in
      if \<not> mutex_ok i then (False, devs1)
      else windows_sim_init_loop mutex_ok is
             (devs1[i := (devs1 ! i)\<lparr>stats_win := windows_fresh_stats\<rparr>]))"

definition windows_sim_init :: "(nat \<Rightarrow> bool) \<Rightarrow> windows_globals \<Rightarrow> int \<times> windows_globals" where
  "windows_sim_init mutex_ok g =
     (if g_initialized g then (0, g)
      else
        (case windows_sim_init_loop mutex_ok [0 ..< 8] (g_devices g) of
           (False, devs) \<Rightarrow> (- 1, g\<lparr>g_devices := devs\<rparr>)
         | (True, devs) \<Rightarrow> (0, g\<lparr>g_devices := devs, g_initialized := True\<rparr>)))"

text \<open>\<open>simulate_transfer_delay(size)\<close> of the Windows backend: the value of
  \<open>total_delay_us\<close> before it is slept; \<open>r1\<close> and \<open>r2\<close> are the two results of \<open>rand()\<close>
  (never negative).\<close>

definition simulate_transfer_delay_win :: "u32 \<Rightarrow> nat \<Rightarrow> nat \<Rightarrow> u32" where
  "simulate_transfer_delay_win sz r1 r2 =
     (let base_delay_us = of_nat (1 + r1 mod 10);
          throughput_delay_us = sz div of_nat (1000 + r2 mod 7000)
      in base_delay_us + throughput_delay_us)"

text \<open>\<open>pcie_sim_open_impl(device_id, handle)\<close>.\<close>

definition pcie_sim_open_impl ::
  "windows_globals \<Rightarrow> int \<Rightarrow> bool \<Rightarrow> (nat \<Rightarrow> bool) \<Rightarrow> pcie_sim_handle option
     \<Rightarrow> pcie_sim_error_t \<times> windows_globals \<times> pcie_sim_handle option" where
  "pcie_sim_open_impl g dev_id handle_ptr mutex_ok mem =
     (if \<not> handle_ptr \<or> dev_id < 0 \<or> dev_id \<ge> MAX_DEVICES then (PCIE_SIM_ERROR_PARAM, g, None)
      else
        (case windows_sim_init mutex_ok g of (rc, g1) \<Rightarrow>
           if rc \<noteq> 0 then (PCIE_SIM_ERROR_SYSTEM, g1, None)
           else
             (let i = nat dev_id in
              if active_win (g_devices g1 ! i) then (PCIE_SIM_ERROR_DEVICE, g1, None)
              else
                (let g2 = g1\<lparr>g_devices := (g_devices g1)[i := (g_devices g1 ! i)\<lparr>active_win := True\<rparr>]\<rparr>
                 in case mem of
                      None \<Rightarrow>
                        (PCIE_SIM_ERROR_MEMORY,
                         g2\<lparr>g_devices := (g_devices g2)[i := (g_devices g2 ! i)\<lparr>active_win := False\<rparr>]\<rparr>,
                         None)
                    | Some h0 \<Rightarrow>
                        (PCIE_SIM_SUCCESS, g2, Some (h0\<lparr>fd := dev_id, device_id := dev_id\<rparr>))))))"

definition pcie_sim_close_impl ::
  "windows_globals \<Rightarrow> pcie_sim_handle option \<Rightarrow> pcie_sim_error_t \<times> windows_globals" where
  "pcie_sim_close_impl g handle =
     (if handle = None then (PCIE_SIM_ERROR_PARAM, g)
      else if device_id (the handle) < 0 \<or> device_id (the handle) \<ge> MAX_DEVICES
      then (PCIE_SIM_ERROR_PARAM, g)
      else
        (let i = nat (device_id (the handle))
         in (PCIE_SIM_SUCCESS,
             g\<lparr>g_devices := (g_devices g)[i := (g_devices g ! i)\<lparr>active_win := False\<rparr>]\<rparr>)))"

text \<open>The statistics update of \<open>pcie_sim_transfer_impl\<close>.  The mean divides by the new
  \<open>total_transfers\<close>, which is zero only after the counter has wrapped.\<close>

definition windows_update_stats :: "pcie_sim_stats \<Rightarrow> u64 \<Rightarrow> u64 \<Rightarrow> pcie_sim_stats" where
  "windows_update_stats s0 sz transfer_latency =
     (let s1 = s0\<lparr>total_transfers := total_transfers s0 + 1\<rparr>;
          s2 = s1\<lparr>total_bytes := total_bytes s1 + sz\<rparr>;
          s3 = (if transfer_latency < min_latency_ns s2
                then s2\<lparr>min_latency_ns := transfer_latency\<rparr> else s2);
          s4 = (if transfer_latency > max_latency_ns s3
                then s3\<lparr>max_latency_ns := transfer_latency\<rparr> else s3)
      in if total_transfers s4 = 1
         then s4\<lparr>avg_latency_ns := transfer_latency\<rparr>
         else s4\<lparr>avg_latency_ns :=
                   (avg_latency_ns s4 * (total_transfers s4 - 1) + transfer_latency)
                     div total_transfers s4\<rparr>)"

text \<open>What the environment supplies to one call of \<open>pcie_sim_transfer_impl\<close>: whether the
  device mutex is acquired within the time-out, the two timestamps, and the two \<open>rand()\<close>
  results used by the delay.\<close>

record win_env =
  wait_ok :: bool
  t_start_win :: u64
  t_end_win :: u64
  rand1 :: nat
  rand2 :: nat

text \<open>
  \<open>pcie_sim_transfer_impl\<close>.  The result is the error code, the globals, the caller's
  buffer, the value stored through \<open>latency_ns\<close>, and the microseconds of delay.
\<close>

definition pcie_sim_transfer_impl ::
  "windows_globals \<Rightarrow> pcie_sim_handle option \<Rightarrow> u8 list option \<Rightarrow> u64 \<Rightarrow> u32 \<Rightarrow> bool
     \<Rightarrow> win_env
     \<Rightarrow> pcie_sim_error_t \<times> windows_globals \<times> u8 list option \<times> u64 option \<times> u32 option" where
  "pcie_sim_transfer_impl g handle buf sz dir latency_ptr env =
     (if handle = None \<or> buf = None \<or> sz = 0 \<or> sz > 1024 * 1024
      then (PCIE_SIM_ERROR_PARAM, g, buf, None, None)
      else if device_id (the handle) < 0 \<or> device_id (the handle) \<ge> MAX_DEVICES
      then (PCIE_SIM_ERROR_PARAM, g, buf, None, None)
      else
        (let i = nat (device_id (the handle));
             dev = g_devices g ! i
         in
         if \<not> active_win dev then (PCIE_SIM_ERROR_DEVICE, g, buf, None, None)
         else if \<not> wait_ok env then (PCIE_SIM_ERROR_TIMEOUT, g, buf, None, None)
         else
           (let buf' = (if dir = PCIE_SIM_TO_DEVICE then the buf
                        else memset (the buf) 0xAA (unat sz));
                d = simulate_transfer_delay_win (ucast sz) (rand1 env) (rand2 env);
                transfer_latency = t_end_win env - t_start_win env;
                dev' = dev\<lparr>stats_win := windows_update_stats (stats_win dev) sz transfer_latency\<rparr>
            in (PCIE_SIM_SUCCESS, g\<lparr>g_devices := (g_devices g)[i := dev']\<rparr>, Some buf',
                (if latency_ptr then Some transfer_latency else None), Some d))))"

definition pcie_sim_reset_stats_impl ::
  "windows_globals \<Rightarrow> pcie_sim_handle option \<Rightarrow> bool \<Rightarrow> pcie_sim_error_t \<times> windows_globals" where
  "pcie_sim_reset_stats_impl g handle lock_ok =
     (if handle = None then (PCIE_SIM_ERROR_PARAM, g)
      else if device_id (the handle) < 0 \<or> device_id (the handle) \<ge> MAX_DEVICES
      then (PCIE_SIM_ERROR_PARAM, g)
      else
        (let i = nat (device_id (the handle));
             dev = g_devices g ! i
         in
         if \<not> active_win dev then (PCIE_SIM_ERROR_DEVICE, g)
         else if \<not> lock_ok then (PCIE_SIM_ERROR_TIMEOUT, g)
         else (PCIE_SIM_SUCCESS,
               g\<lparr>g_devices := (g_devices g)[i := dev\<lparr>stats_win := windows_fresh_stats\<rparr>]\<rparr>)))"

section \<open>Descriptor ring: kernel/ringbuffer.c\<close>

record pcie_sim_ring_desc =
  buffer_addr :: u64
  length_desc :: u32
  flags :: u32
  timestamp :: u64
  status :: u32
  reserved :: u32

text \<open>\<open>struct pcie_sim_ring\<close>.  The descriptor array is a list, empty when the pointer is
  \<open>NULL\<close>; the spinlock and the DMA address are left out.\<close>

record pcie_sim_ring =
  descriptors :: "pcie_sim_ring_desc list"
  size_ring :: u32
  head :: u32
  tail :: u32
  count :: u32
  submissions :: u64
  completions :: u64
  overruns :: u64

definition RING_SIZE :: u32 where "RING_SIZE = 256"

definition zero_desc :: pcie_sim_ring_desc where
  "zero_desc = \<lparr>buffer_addr = 0, length_desc = 0, flags = 0, timestamp = 0,
                 status = 0, reserved = 0\<rparr>"

text \<open>\<open>init_ring\<close>; \<open>dma_ok\<close> tells whether \<open>dma_alloc_coherent\<close> succeeds.\<close>

definition init_ring :: "pcie_sim_ring \<Rightarrow> bool \<Rightarrow> int \<times> pcie_sim_ring" where
  "init_ring ring dma_ok =
     (let r1 = ring\<lparr>size_ring := RING_SIZE, head := 0, tail := 0, count := 0,
                    submissions := 0, completions := 0, overruns := 0\<rparr>
      in if \<not> dma_ok then (- ENOMEM, r1\<lparr>descriptors := []\<rparr>)
         else (0, r1\<lparr>descriptors := replicate (unat (size_ring r1)) zero_desc\<rparr>))"

definition pcie_sim_ring_count :: "pcie_sim_ring \<Rightarrow> u32" where
  "pcie_sim_ring_count ring = count ring"

definition pcie_sim_ring_space :: "pcie_sim_ring \<Rightarrow> u32" where
  "pcie_sim_ring_space ring = size_ring ring - count ring"

text \<open>\<open>pcie_sim_ring_submit\<close>; \<open>now\<close> is the reading of \<open>ktime_get_ns()\<close>.\<close>

definition pcie_sim_ring_submit ::
  "pcie_sim_ring \<Rightarrow> u64 \<Rightarrow> u32 \<Rightarrow> u32 \<Rightarrow> u64 \<Rightarrow> int \<times> pcie_sim_ring" where
  "pcie_sim_ring_submit ring addr len fl now =
     (if count ring \<ge> size_ring ring
      then (- ENOSPC, ring\<lparr>overruns := overruns ring + 1\<rparr>)
      else
        (let h = unat (head ring);
             d = (descriptors ring ! h)
                   \<lparr>buffer_addr := addr, length_desc := len, flags := fl,
                    timestamp := now, status := 0\<rparr>;
             next_head = (head ring + 1) mod size_ring ring
         in (0, ring\<lparr>descriptors := (descriptors ring)[h := d],
                     head := next_head,
                     count := count ring + 1,
                     submissions := submissions ring + 1\<rparr>)))"

text \<open>\<open>pcie_sim_ring_complete\<close>; \<open>length_ptr\<close> and \<open>latency_ptr\<close> tell whether the two out
  pointers are non-\<open>NULL\<close>, and the last two components of the result are the values
  stored through them.\<close>

definition pcie_sim_ring_complete ::
  "pcie_sim_ring \<Rightarrow> bool \<Rightarrow> bool \<Rightarrow> u32 \<Rightarrow> u64
     \<Rightarrow> int \<times> pcie_sim_ring \<times> u32 option \<times> u64 option" where
  "pcie_sim_ring_complete ring length_ptr latency_ptr st now =
     (if count ring = 0 then (- ENODATA, ring, None, None)
      else
        (let t = unat (tail ring);
             desc = descriptors ring ! t;
             completion_time = now;
             len_out = (if length_ptr then Some (length_desc desc) else None);
             lat_out = (if latency_ptr then Some (completion_time - timestamp desc) else None)
         in (0,
             ring\<lparr>descriptors := (descriptors ring)[t := desc\<lparr>status := st\<rparr>],
                  tail := (tail ring + 1) mod size_ring ring,
                  count := count ring - 1,
                  completions := completions ring + 1\<rparr>,
             len_out, lat_out)))"

subsection \<open>Sequences of ring operations\<close>

text \<open>A caller's operation on a ring, with the clock reading it meets, and what the call
  hands back (both out pointers of a completion are supplied).\<close>

datatype ring_op =
    Submit u64 u32 u32 u64
  | Complete u32 u64

datatype ring_result =
    Submitted int
  | Completed int "u32 option" "u64 option"

fun ring_step :: "pcie_sim_ring \<Rightarrow> ring_op \<Rightarrow> ring_result \<times> pcie_sim_ring" where
  "ring_step r (Submit addr len fl now) =
     (case pcie_sim_ring_submit r addr len fl now of (rc, r') \<Rightarrow> (Submitted rc, r'))"
| "ring_step r (Complete st now) =
     (case pcie_sim_ring_complete r True True st now of
        (rc, r', len, lat) \<Rightarrow> (Completed rc len lat, r'))"

fun ring_exec :: "pcie_sim_ring \<Rightarrow> ring_op list \<Rightarrow> pcie_sim_ring" where
  "ring_exec r [] = r"
| "ring_exec r (op # ops) = ring_exec (snd (ring_step r op)) ops"

fun ring_run :: "pcie_sim_ring \<Rightarrow> ring_op list \<Rightarrow> ring_result list" where
  "ring_run r [] = []"
| "ring_run r (op # ops) = fst (ring_step r op) # ring_run (snd (ring_step r op)) ops"

text \<open>A ring as \<open>pcie_sim_ring_init\<close> leaves it when the allocation succeeds, whatever the
  structure held before.\<close>

definition fresh_ring :: "pcie_sim_ring \<Rightarrow> pcie_sim_ring" where
  "fresh_ring r0 = snd (init_ring r0 True)"

subsection \<open>The queue of the specification\<close>

text \<open>
  The descriptor queue as the specification words it: a first-in first-out queue of at most
  \<open>N = 256\<close> pending submissions, each remembered with its length and submission
  timestamp; \<open>submit\<close> on a full queue is an overflow, \<open>complete\<close> on an empty queue is an
  underflow, and a completion hands back the oldest pending length together with
  \<open>now - submit_timestamp\<close>.
\<close>

type_synonym spec_queue = "(u32 \<times> u64) list"

fun spec_queue_step :: "spec_queue \<Rightarrow> ring_op \<Rightarrow> ring_result \<times> spec_queue" where
  "spec_queue_step q (Submit addr len fl now) =
     (if length q \<ge> 256 then (Submitted (- ENOSPC), q)
      else (Submitted 0, q @ [(len, now)]))"
| "spec_queue_step q (Complete st now) =
     (case q of
        [] \<Rightarrow> (Completed (- ENODATA) None None, q)
      | (len, ts) # q' \<Rightarrow> (Completed 0 (Some len) (Some (now - ts)), q'))"

fun spec_queue_run :: "spec_queue \<Rightarrow> ring_op list \<Rightarrow> ring_result list" where
  "spec_queue_run q [] = []"
| "spec_queue_run q (op # ops) =
     fst (spec_queue_step q op) # spec_queue_run (snd (spec_queue_step q op)) ops"

subsection \<open>Instruments for reasoning about the ring\<close>

text \<open>Submissions given as argument tuples \<open>(buffer_addr, length, flags, now)\<close>.\<close>

definition submit_op :: "u64 \<times> u32 \<times> u32 \<times> u64 \<Rightarrow> ring_op" where
  "submit_op x = (case x of (a, l, f, n) \<Rightarrow> Submit a l f n)"

text \<open>The representation invariant of an initialised ring: capacity 256, a descriptor
  array of that length, and \<open>head\<close> running \<open>count\<close> slots ahead of \<open>tail\<close>.\<close>

definition ring_inv :: "pcie_sim_ring \<Rightarrow> bool" where
  "ring_inv r \<longleftrightarrow>
     size_ring r = 256 \<and> length (descriptors r) = 256 \<and> unat (count r) \<le> 256 \<and>
     unat (tail r) < 256 \<and> unat (head r) = (unat (tail r) + unat (count r)) mod 256"

text \<open>The pending submissions a ring holds, oldest first: the \<open>count\<close> descriptors
  starting at \<open>tail\<close>, each as its length and submission timestamp.\<close>

definition pending :: "pcie_sim_ring \<Rightarrow> spec_queue" where
  "pending r =
     map (\<lambda>k. let d = descriptors r ! ((unat (tail r) + k) mod 256)
               in (length_desc d, timestamp d))
         [0 ..< unat (count r)]"

text \<open>Two concrete rings: a zeroed structure, and the ring after it has been initialised
  and has taken 256 submissions of 64 bytes.\<close>

definition null_ring :: pcie_sim_ring where
  "null_ring = \<lparr>descriptors = [], size_ring = 0, head = 0, tail = 0, count = 0,
                 submissions = 0, completions = 0, overruns = 0\<rparr>"

definition full_ring :: pcie_sim_ring where
  "full_ring = ring_exec (fresh_ring null_ring) (map submit_op (replicate 256 (0, 64, 0, 0)))"

section \<open>Sessions: one device, a sequence of transfers\<close>

text \<open>
  One transfer as a caller issues it, together with everything the environment decides
  during the call: the caller's buffer, the two clock readings the backend takes around the
  simulated delay, and the two values it draws from the random source.
\<close>

record transfer_call =
  x_size :: u64
  x_dir :: u32
  x_buf :: "u8 list"
  x_start :: u64
  x_end :: u64
  x_rand1 :: nat
  x_rand2 :: nat

text \<open>The kernel is driven through the transfer ioctl; allocation succeeds and the jitter
  is the first random draw reduced below 20.\<close>

definition kernel_call :: "pcie_sim_device \<Rightarrow> transfer_call \<Rightarrow> pcie_sim_device" where
  "kernel_call dev x =
     fst (snd (pcie_sim_dma_transfer dev
       \<lparr>buffer = Some (x_buf x), size_req = x_size x, direction = x_dir x, latency_ns = 0\<rparr>
       \<lparr>alloc_ok = True, start_time = x_start x, end_time = x_end x,
        jitter = of_nat (x_rand1 x mod 20)\<rparr>))"

fun kernel_run :: "pcie_sim_device \<Rightarrow> transfer_call list \<Rightarrow> pcie_sim_device" where
  "kernel_run dev [] = dev"
| "kernel_run dev (x # xs) = kernel_run (kernel_call dev x) xs"

definition linux_call :: "pcie_sim_handle \<Rightarrow> linux_globals \<Rightarrow> transfer_call \<Rightarrow> linux_globals" where
  "linux_call h g x =
     fst (snd (pcie_sim_transfer_linux g (Some h) (Some (x_buf x)) (x_size x) (x_dir x) True
                 (x_start x) (x_end x)))"

fun linux_run :: "pcie_sim_handle \<Rightarrow> linux_globals \<Rightarrow> transfer_call list \<Rightarrow> linux_globals" where
  "linux_run h g [] = g"
| "linux_run h g (x # xs) = linux_run h (linux_call h g x) xs"

definition windows_call ::
  "pcie_sim_handle \<Rightarrow> windows_globals \<Rightarrow> transfer_call \<Rightarrow> windows_globals" where
  "windows_call h g x =
     fst (snd (pcie_sim_transfer_impl g (Some h) (Some (x_buf x)) (x_size x) (x_dir x) True
                 \<lparr>wait_ok = True, t_start_win = x_start x, t_end_win = x_end x,
                  rand1 = x_rand1 x, rand2 = x_rand2 x\<rparr>))"

fun windows_run ::
  "pcie_sim_handle \<Rightarrow> windows_globals \<Rightarrow> transfer_call list \<Rightarrow> windows_globals" where
  "windows_run h g [] = g"
| "windows_run h g (x # xs) = windows_run h (windows_call h g x) xs"

text \<open>The statistics block a handle refers to (what \<open>pcie_sim_get_stats\<close> copies out).\<close>

definition linux_stats_of :: "linux_globals \<Rightarrow> pcie_sim_handle \<Rightarrow> pcie_sim_stats" where
  "linux_stats_of g h = stats_linux (g_sim_devices g ! nat (device_id h))"

definition windows_stats_of :: "windows_globals \<Rightarrow> pcie_sim_handle \<Rightarrow> pcie_sim_stats" where
  "windows_stats_of g h = stats_win (g_devices g ! nat (device_id h))"

text \<open>A freshly allocated handle block, and the statistics of device 0 after a whole
  session on each backend: the device is probed (kernel) or opened from the initial
  globals (simulators), and the calls are issued in order.\<close>

definition null_handle :: pcie_sim_handle where
  "null_handle = \<lparr>fd = 0, device_id = 0, is_simulation = 0\<rparr>"

definition kernel_session :: "transfer_call list \<Rightarrow> pcie_sim_stats" where
  "kernel_session xs = stats (kernel_run (pcie_sim_probe 0) xs)"

definition linux_session :: "transfer_call list \<Rightarrow> pcie_sim_stats" where
  "linux_session xs =
     (case pcie_sim_open_linux linux_globals_init 0 True (Some null_handle) of
        (rc, g, h) \<Rightarrow> linux_stats_of (linux_run (the h) g xs) (the h))"

definition windows_session :: "transfer_call list \<Rightarrow> pcie_sim_stats" where
  "windows_session xs =
     (case pcie_sim_open_impl windows_globals_init 0 True (\<lambda>i. True) (Some null_handle) of
        (rc, g, h) \<Rightarrow> windows_stats_of (windows_run (the h) g xs) (the h))"

text \<open>A call that all three backends accept and complete.\<close>

definition call_ok :: "transfer_call \<Rightarrow> bool" where
  "call_ok x \<longleftrightarrow>
     1 \<le> x_size x \<and> x_size x \<le> 1024 * 1024 \<and> x_dir x \<le> 1 \<and> unat (x_size x) \<le> length (x_buf x)"

text \<open>A 64-byte to-device transfer whose measured latency is \<open>lat\<close>.\<close>

definition call64 :: "u64 \<Rightarrow> transfer_call" where
  "call64 lat = \<lparr>x_size = 64, x_dir = 0, x_buf = replicate 64 0, x_start = 0, x_end = lat,
                 x_rand1 = 0, x_rand2 = 0\<rparr>"

text \<open>The return codes of the calls of a session, in order: each backend reports its own
  success or failure for every call while the session goes on.\<close>

definition kernel_ret :: "pcie_sim_device \<Rightarrow> transfer_call \<Rightarrow> int" where
  "kernel_ret dev x =
     fst (pcie_sim_dma_transfer dev
       \<lparr>buffer = Some (x_buf x), size_req = x_size x, direction = x_dir x, latency_ns = 0\<rparr>
       \<lparr>alloc_ok = True, start_time = x_start x, end_time = x_end x,
        jitter = of_nat (x_rand1 x mod 20)\<rparr>)"

fun kernel_codes :: "pcie_sim_device \<Rightarrow> transfer_call list \<Rightarrow> int list" where
  "kernel_codes dev [] = []"
| "kernel_codes dev (x # xs) = kernel_ret dev x # kernel_codes (kernel_call dev x) xs"

definition linux_ret :: "pcie_sim_handle \<Rightarrow> linux_globals \<Rightarrow> transfer_call \<Rightarrow> pcie_sim_error_t" where
  "linux_ret h g x =
     fst (pcie_sim_transfer_linux g (Some h) (Some (x_buf x)) (x_size x) (x_dir x) True
            (x_start x) (x_end x))"

fun linux_codes ::
  "pcie_sim_handle \<Rightarrow> linux_globals \<Rightarrow> transfer_call list \<Rightarrow> pcie_sim_error_t list" where
  "linux_codes h g [] = []"
| "linux_codes h g (x # xs) = linux_ret h g x # linux_codes h (linux_call h g x) xs"

definition windows_ret ::
  "pcie_sim_handle \<Rightarrow> windows_globals \<Rightarrow> transfer_call \<Rightarrow> pcie_sim_error_t" where
  "windows_ret h g x =
     fst (pcie_sim_transfer_impl g (Some h) (Some (x_buf x)) (x_size x) (x_dir x) True
            \<lparr>wait_ok = True, t_start_win = x_start x, t_end_win = x_end x,
             rand1 = x_rand1 x, rand2 = x_rand2 x\<rparr>)"

fun windows_codes ::
  "pcie_sim_handle \<Rightarrow> windows_globals \<Rightarrow> transfer_call list \<Rightarrow> pcie_sim_error_t list" where
  "windows_codes h g [] = []"
| "windows_codes h g (x # xs) = windows_ret h g x # windows_codes h (windows_call h g x) xs"

definition kernel_session_codes :: "transfer_call list \<Rightarrow> int list" where
  "kernel_session_codes xs = kernel_codes (pcie_sim_probe 0) xs"

definition linux_session_codes :: "transfer_call list \<Rightarrow> pcie_sim_error_t list" where
  "linux_session_codes xs =
     (case pcie_sim_open_linux linux_globals_init 0 True (Some null_handle) of
        (rc, g, h) \<Rightarrow> linux_codes (the h) g xs)"

definition windows_session_codes :: "transfer_call list \<Rightarrow> pcie_sim_error_t list" where
  "windows_session_codes xs =
     (case pcie_sim_open_impl windows_globals_init 0 True (\<lambda>i. True) (Some null_handle) of
        (rc, g, h) \<Rightarrow> windows_codes (the h) g xs)"

text \<open>A 2 MiB transfer with an out-of-range direction whose measured latency is \<open>lat\<close>: the
  Linux simulator completes it, the kernel and the Windows simulator reject it.\<close>

definition call_big :: "u64 \<Rightarrow> transfer_call" where
  "call_big lat = \<lparr>x_size = 2097152, x_dir = 7, x_buf = replicate 2097152 0, x_start = 0,
                   x_end = lat, x_rand1 = 0, x_rand2 = 0\<rparr>"

subsection \<open>The running average of the specification\<close>

text \<open>
  The policy as the specification words it: for the first sample the average is that
  sample; for every subsequent sample \<open>avg = (avg + latency) / 2\<close>.
\<close>

fun spec_avg_from :: "u64 \<Rightarrow> u64 list \<Rightarrow> u64" where
  "spec_avg_from avg [] = avg"
| "spec_avg_from avg (l # ls) = spec_avg_from ((avg + l) div 2) ls"

definition spec_running_avg :: "u64 list \<Rightarrow> u64" where
  "spec_running_avg ls = (case ls of [] \<Rightarrow> 0 | l # ls' \<Rightarrow> spec_avg_from l ls')"

subsection \<open>Example requests and devices\<close>

text \<open>Concrete inputs used to exercise the operations: a request of \<open>n\<close> bytes on a user
  buffer of exactly that length, an environment in which allocation succeeds, a kernel
  device with an error scenario configured, and the Windows globals after device 0 has been
  opened from the initial state.\<close>

definition req_of_size :: "u64 \<Rightarrow> u32 \<Rightarrow> pcie_sim_transfer_req" where
  "req_of_size n dir =
     \<lparr>buffer = Some (replicate (unat n) 0), size_req = n, direction = dir, latency_ns = 0\<rparr>"

definition env_example :: dma_env where
  "env_example = \<lparr>alloc_ok = True, start_time = 0, end_time = 1000, jitter = 0\<rparr>"

definition scenario_device :: "u32 \<Rightarrow> pcie_sim_device" where
  "scenario_device sc =
     (pcie_sim_probe 0)\<lparr>simulate_errors := True, error_scenario := sc,
                        error_probability := 10000, error_recovery_time_ms := 100\<rparr>"

definition win_env_example :: win_env where
  "win_env_example = \<lparr>wait_ok = True, t_start_win = 0, t_end_win = 1000, rand1 = 0, rand2 = 0\<rparr>"

definition windows_opened :: windows_globals where
  "windows_opened =
     fst (snd (pcie_sim_open_impl windows_globals_init 0 True (\<lambda>i. True) (Some null_handle)))"

definition windows_opened_handle :: "pcie_sim_handle option" where
  "windows_opened_handle =
     snd (snd (pcie_sim_open_impl windows_globals_init 0 True (\<lambda>i. True) (Some null_handle)))"

subsection \<open>Instruments for comparing the statistics of the backends\<close>

text \<open>The measured latency of a call.\<close>

abbreviation lat_of :: "transfer_call \<Rightarrow> u64" where
  "lat_of x \<equiv> x_end x - x_start x"

text \<open>After \<open>n\<close> completed transfers the three statistics blocks carry the same counters
  and maximum; the Linux and Windows minima coincide once a transfer has completed.  The
  kernel minimum joins them as long as no measured latency was zero.\<close>

definition stats_agree ::
  "nat \<Rightarrow> pcie_sim_stats \<Rightarrow> pcie_sim_stats \<Rightarrow> pcie_sim_stats \<Rightarrow> bool" where
  "stats_agree n k l w \<longleftrightarrow>
     total_transfers k = of_nat n \<and> total_transfers l = of_nat n \<and> total_transfers w = of_nat n \<and>
     total_bytes k = total_bytes l \<and> total_bytes l = total_bytes w \<and>
     total_errors k = 0 \<and> total_errors l = 0 \<and> total_errors w = 0 \<and>
     max_latency_ns k = max_latency_ns l \<and> max_latency_ns l = max_latency_ns w \<and>
     (if n = 0 then max_latency_ns k = 0 \<and> min_latency_ns w = UINT64_MAX
      else min_latency_ns l = min_latency_ns w)"

definition kernel_min_agree :: "nat \<Rightarrow> pcie_sim_stats \<Rightarrow> pcie_sim_stats \<Rightarrow> bool" where
  "kernel_min_agree n k l \<longleftrightarrow>
     total_transfers l = of_nat n \<and>
     (if n = 0 then min_latency_ns k = 0
      else min_latency_ns k = min_latency_ns l \<and> min_latency_ns k \<noteq> 0)"

section \<open>Properties of the descriptor ring\<close>

lemma ring_inv_fresh: "ring_inv (fresh_ring r0)"
  by (simp add: ring_inv_def fresh_ring_def init_ring_def RING_SIZE_def)

lemma count_lt_iff: "ring_inv r \<Longrightarrow> (count r \<ge> size_ring r) = (unat (count r) = 256)"
  by (auto simp: ring_inv_def word_le_nat_alt)

lemma unat_succ_u32: "unat (w :: u32) \<le> 256 \<Longrightarrow> unat (w + 1) = unat w + 1"
  by (simp add: unat_word_ariths)

lemma unat_next_idx: "unat (w :: u32) < 256 \<Longrightarrow> unat ((w + 1) mod 256) = (unat w + 1) mod 256"
  by (simp add: unat_mod unat_word_ariths)

lemma unat_pred_u32: "(w :: u32) \<noteq> 0 \<Longrightarrow> unat (w - 1) = unat w - 1"
  by (simp add: unat_minus_one)

lemma ring_inv_submit:
  assumes "ring_inv r"
  shows "ring_inv (snd (pcie_sim_ring_submit r a l f n))"
proof (cases "count r \<ge> size_ring r")
  case True
  then have "snd (pcie_sim_ring_submit r a l f n) = r\<lparr>overruns := overruns r + 1\<rparr>"
    by (simp add: pcie_sim_ring_submit_def)
  then show ?thesis using assms by (simp add: ring_inv_def)
next
  case False
  have sz: "size_ring r = 256" and len: "length (descriptors r) = 256"
    and t: "unat (tail r) < 256"
    and h: "unat (head r) = (unat (tail r) + unat (count r)) mod 256"
    and c0: "unat (count r) \<le> 256"
    using assms by (simp_all add: ring_inv_def)
  have "unat (count r) \<noteq> 256" using False count_lt_iff[OF assms] by simp
  then have c: "unat (count r) < 256" using c0 by simp
  have u: "unat (count r + 1) = unat (count r) + 1" using c0 by (rule unat_succ_u32)
  have hb: "unat (head r) < 256" by (simp add: h)
  have nh: "unat ((head r + 1) mod 256) = (unat (head r) + 1) mod 256"
    using hb by (rule unat_next_idx)
  have a: "(unat (head r) + 1) mod 256 = (unat (tail r) + (unat (count r) + 1)) mod 256"
    unfolding h by presburger
  define r' where "r' = snd (pcie_sim_ring_submit r a l f n)"
  have f1: "size_ring r' = 256" and f2: "length (descriptors r') = 256"
    and f3: "tail r' = tail r" and f4: "count r' = count r + 1"
    and f5: "head r' = (head r + 1) mod 256"
    using False by (simp_all add: r'_def pcie_sim_ring_submit_def Let_def sz len)
  have "ring_inv r'"
    unfolding ring_inv_def f1 f2 f3 f4 f5 u nh a using c t by simp
  then show ?thesis by (simp add: r'_def)
qed

lemma idx_shift: "0 < c \<Longrightarrow> ((t + 1) mod 256 + (c - 1)) mod 256 = (t + c) mod (256::nat)"
proof -
  assume "0 < c"
  then obtain m where m: "c = Suc m" by (cases c) auto
  show ?thesis unfolding m by (simp add: mod_simps)
qed

lemma upt_shift: "0 < n \<Longrightarrow> [0 ..< n] = 0 # map Suc [0 ..< n - 1]"
proof -
  assume "0 < n"
  then obtain m where m: "n = Suc m" by (cases n) auto
  have "[0 ..< Suc m] = 0 # [Suc 0 ..< Suc m]" by (rule upt_conv_Cons) simp
  also have "[Suc 0 ..< Suc m] = map Suc [0 ..< m]" by (simp only: map_Suc_upt)
  finally show ?thesis by (simp add: m)
qed

lemma idx_step: "(Suc t mod 256 + k) mod 256 = Suc (t + k) mod (256::nat)"
  by (simp add: mod_simps)

lemma count_pos: "(w::u32) \<noteq> 0 \<Longrightarrow> 0 < unat w"
  by (simp add: unat_gt_0)

lemma ring_inv_complete:
  assumes "ring_inv r"
  shows "ring_inv (fst (snd (pcie_sim_ring_complete r lp tp st n)))"
proof (cases "count r = 0")
  case True
  then show ?thesis using assms by (simp add: pcie_sim_ring_complete_def)
next
  case False
  then have pos: "0 < unat (count r)" by (rule count_pos)
  have u: "unat (count r - 1) = unat (count r) - 1" using False by (rule unat_pred_u32)
  have t: "unat (tail r) < 256" and len: "length (descriptors r) = 256" 
    and sz: "size_ring r = 256" and c: "unat (count r) \<le> 256"
    and h: "unat (head r) = (unat (tail r) + unat (count r)) mod 256"
    using assms by (simp_all add: ring_inv_def)
  have a: "((unat (tail r) + 1) mod 256 + (unat (count r) - 1)) mod 256
           = (unat (tail r) + unat (count r)) mod 256"
    using pos by (rule idx_shift)
  have nt: "unat ((tail r + 1) mod 256) = (unat (tail r) + 1) mod 256"
    using t by (rule unat_next_idx)
  define r' where "r' = fst (snd (pcie_sim_ring_complete r lp tp st n))"
  have f1: "size_ring r' = 256" and f2: "length (descriptors r') = 256"
    and f3: "tail r' = (tail r + 1) mod 256" and f4: "count r' = count r - 1"
    and f5: "head r' = head r"
    using False by (simp_all add: r'_def pcie_sim_ring_complete_def Let_def sz len)
  have "ring_inv r'"
    unfolding ring_inv_def f1 f2 f3 f4 f5 u nt a h using c by simp
  then show ?thesis by (simp add: r'_def)
qed

lemma length_pending: "length (pending r) = unat (count r)"
  by (simp add: pending_def)

lemma idx_neq:
  assumes "k < c" "c < 256"
  shows "(t + c) mod 256 \<noteq> (t + k) mod (256::nat)"
proof
  assume "(t + c) mod 256 = (t + k) mod 256"
  moreover have "t + k \<le> t + c" using assms by simp
  ultimately have "256 dvd (t + c) - (t + k)" by (simp add: mod_eq_dvd_iff_nat)
  then have "256 dvd c - k" by simp
  moreover have "0 < c - k" "c - k < 256" using assms by simp_all
  ultimately show False by (meson nat_dvd_not_less)
qed

lemma pending_submit:
  assumes "ring_inv r" "unat (count r) < 256"
  shows "pending (snd (pcie_sim_ring_submit r a l f n)) = pending r @ [(l, n)]"
proof -
  have c: "\<not> count r \<ge> size_ring r" using assms by (simp add: count_lt_iff)
  have u: "unat (count r + 1) = unat (count r) + 1" using assms by (simp add: unat_succ_u32)
  have h: "unat (head r) = (unat (tail r) + unat (count r)) mod 256" 
    and len: "length (descriptors r) = 256"
    using assms by (simp_all add: ring_inv_def)
  have old: "\<And>k. k < unat (count r) \<Longrightarrow>
      (descriptors r)[unat (head r) := d] ! ((unat (tail r) + k) mod 256)
       = descriptors r ! ((unat (tail r) + k) mod 256)" for d
    using assms(2) by (simp add: h idx_neq)
  have hl: "unat (head r) < length (descriptors r)" by (simp add: h len)
  have new: "(descriptors r)[unat (head r) := d] ! ((unat (tail r) + unat (count r)) mod 256) = d" for d
    using hl by (simp add: h[symmetric])
  show ?thesis
    using c assms(2)
    by (simp add: pcie_sim_ring_submit_def pending_def Let_def u old new)
qed

lemma pending_complete:
  assumes "ring_inv r" "count r \<noteq> 0"
  shows "\<exists>r' l ts. pcie_sim_ring_complete r True True st n = (0, r', Some l, Some (n - ts))
                    \<and> pending r = (l, ts) # pending r' \<and> ring_inv r'"
proof -
  define d where "d = descriptors r ! unat (tail r)"
  define r' where "r' = r\<lparr>descriptors := (descriptors r)[unat (tail r) := d\<lparr>status := st\<rparr>],
                  tail := (tail r + 1) mod size_ring r,
                  count := count r - 1,
                  completions := completions r + 1\<rparr>"
  have res: "pcie_sim_ring_complete r True True st n
               = (0, r', Some (length_desc d), Some (n - timestamp d))"
    using assms(2) by (simp add: pcie_sim_ring_complete_def Let_def r'_def d_def)
  have u: "unat (count r - 1) = unat (count r) - 1" using assms by (simp add: unat_pred_u32)
  have pos: "0 < unat (count r)" using assms by (simp add: unat_gt_0)
  have t: "unat (tail r) < 256" and len: "length (descriptors r) = 256" and sz: "size_ring r = 256"
    using assms by (simp_all add: ring_inv_def)
  have nt: "unat ((tail r + 1) mod 256) = (unat (tail r) + 1) mod 256"
    using t by (rule unat_next_idx)
  have upt: "[0 ..< unat (count r)] = 0 # map Suc [0 ..< unat (count r) - 1]"
    using pos by (rule upt_shift)
  have fields: "length_desc (((descriptors r)[unat (tail r) := d\<lparr>status := st\<rparr>]) ! i)
                  = length_desc (descriptors r ! i) \<and>
                timestamp (((descriptors r)[unat (tail r) := d\<lparr>status := st\<rparr>]) ! i)
                  = timestamp (descriptors r ! i)" for i
    using t len by (simp add: nth_list_update d_def)
  have tl: "pending r' = map (\<lambda>k. let e = descriptors r ! ((unat (tail r) + Suc k) mod 256)
               in (length_desc e, timestamp e)) [0 ..< unat (count r) - 1]"
    by (simp add: pending_def r'_def Let_def u sz nt fields idx_step)
  have full: "pending r = (length_desc d, timestamp d) # map (\<lambda>k. let e = descriptors r ! ((unat (tail r) + Suc k) mod 256)
               in (length_desc e, timestamp e)) [0 ..< unat (count r) - 1]"
    using t by (subst pending_def, subst upt) (simp add: Let_def o_def d_def)
  have inv: "ring_inv r'"
    using ring_inv_complete[OF assms(1), of True True st n] by (simp add: res)
  show ?thesis
    using res full tl inv by simp
qed

lemma ring_refines_queue:
  "ring_inv r \<Longrightarrow> ring_run r ops = spec_queue_run (pending r) ops"
proof (induction ops arbitrary: r)
  case Nil
  show ?case by simp
next
  case (Cons op ops)
  show ?case
  proof (cases op)
    case (Submit a l f n)
    show ?thesis
    proof (cases "unat (count r) < 256")
      case True
      have c: "\<not> count r \<ge> size_ring r" using Cons.prems True by (simp add: count_lt_iff)
      have rc: "fst (pcie_sim_ring_submit r a l f n) = 0" using c by (simp add: pcie_sim_ring_submit_def Let_def)
      have inv': "ring_inv (snd (pcie_sim_ring_submit r a l f n))" using Cons.prems by (rule ring_inv_submit)
      show ?thesis
        using True rc Cons.IH[OF inv'] pending_submit[OF Cons.prems True, of a l f n]
        by (simp add: Submit length_pending case_prod_beta)
    next
      case False
      then have "unat (count r) = 256" using Cons.prems by (simp add: ring_inv_def)
      then have c: "count r \<ge> size_ring r" using Cons.prems by (simp add: count_lt_iff)
      have st: "pcie_sim_ring_submit r a l f n = (- ENOSPC, r\<lparr>overruns := overruns r + 1\<rparr>)"
        using c by (simp add: pcie_sim_ring_submit_def)
      have inv': "ring_inv (r\<lparr>overruns := overruns r + 1\<rparr>)" using Cons.prems by (simp add: ring_inv_def)
      have p: "pending (r\<lparr>overruns := overruns r + 1\<rparr>) = pending r" by (simp add: pending_def)
      show ?thesis
        using False Cons.IH[OF inv'] p by (simp add: Submit st length_pending)
    qed
  next
    case (Complete st n)
    show ?thesis
    proof (cases "count r = 0")
      case True
      then have e: "pending r = []" by (simp add: pending_def)
      show ?thesis using True Cons.IH[OF Cons.prems] e
        by (simp add: Complete pcie_sim_ring_complete_def)
    next
      case False
      obtain r' l ts where
        res: "pcie_sim_ring_complete r True True st n = (0, r', Some l, Some (n - ts))"
        and q: "pending r = (l, ts) # pending r'" and inv': "ring_inv r'"
        using pending_complete[OF Cons.prems False, of st n] by blast
      show ?thesis
        using Cons.IH[OF inv'] q
        by (simp add: Complete res)
    qed
  qed
qed

text \<open>
  Claim C6.  On a freshly initialised ring, every sequence of submit and complete calls
  returns exactly what the specification's first-in first-out queue returns: each
  successful completion hands back the length of the oldest pending submission and
  \<open>now - submit_timestamp\<close> of that submission.
\<close>

theorem ring_fifo_order: "ring_run (fresh_ring r0) ops = spec_queue_run [] ops"
proof -
  have "pending (fresh_ring r0) = []" by (simp add: pending_def fresh_ring_def init_ring_def)
  then show ?thesis using ring_refines_queue[OF ring_inv_fresh, of r0 ops] by simp
qed

lemma ring_inv_step: "ring_inv r \<Longrightarrow> ring_inv (snd (ring_step r op))"
proof (cases op)
  case (Submit a l f n)
  assume "ring_inv r"
  then have "ring_inv (snd (pcie_sim_ring_submit r a l f n))" by (rule ring_inv_submit)
  then show ?thesis by (simp add: Submit case_prod_beta)
next
  case (Complete st n)
  assume "ring_inv r"
  then have "ring_inv (fst (snd (pcie_sim_ring_complete r True True st n)))"
    by (rule ring_inv_complete)
  then show ?thesis by (simp add: Complete case_prod_beta)
qed

lemma ring_inv_exec: "ring_inv r \<Longrightarrow> ring_inv (ring_exec r ops)"
  by (induction ops arbitrary: r) (simp_all add: ring_inv_step)

lemma ring_inv_bounds:
  assumes "ring_inv r"
  shows "count r \<le> size_ring r" "head r < size_ring r" "tail r < size_ring r" "size_ring r = 256"
  using assms by (simp_all add: ring_inv_def word_le_nat_alt word_less_nat_alt)

lemma submit_full:
  "count r \<ge> size_ring r \<Longrightarrow>
   pcie_sim_ring_submit r a l f n = (- ENOSPC, r\<lparr>overruns := overruns r + 1\<rparr>)"
  by (simp add: pcie_sim_ring_submit_def)

lemma complete_empty:
  "count r = 0 \<Longrightarrow> pcie_sim_ring_complete r lp tp st n = (- ENODATA, r, None, None)"
  by (simp add: pcie_sim_ring_complete_def)

lemma submits_ok:
  "ring_inv r \<Longrightarrow> unat (count r) + length subs \<le> 256 \<Longrightarrow>
   ring_run r (map submit_op subs) = replicate (length subs) (Submitted 0) \<and>
   unat (count (ring_exec r (map submit_op subs))) = unat (count r) + length subs"
proof (induction subs arbitrary: r)
  case Nil
  show ?case by simp
next
  case (Cons x xs)
  obtain a l f n where x: "x = (a, l, f, n)" by (cases x) auto
  have c: "unat (count r) < 256" using Cons.prems(2) by simp
  have nf: "\<not> count r \<ge> size_ring r" using Cons.prems(1) c by (simp add: count_lt_iff)
  define r' where "r' = snd (pcie_sim_ring_submit r a l f n)"
  have rc: "fst (pcie_sim_ring_submit r a l f n) = 0"
    using nf by (simp add: pcie_sim_ring_submit_def Let_def)
  have inv': "ring_inv r'" unfolding r'_def using Cons.prems(1) by (rule ring_inv_submit)
  have cnt: "count r' = count r + 1"
    using nf by (simp add: r'_def pcie_sim_ring_submit_def Let_def)
  have u: "unat (count r') = unat (count r) + 1"
    unfolding cnt using c by (simp add: unat_succ_u32)
  have "unat (count r') + length xs \<le> 256" using Cons.prems(2) u by simp
  from Cons.IH[OF inv' this] show ?case
    using rc u by (simp add: x submit_op_def case_prod_beta r'_def)
qed

lemma sint_small: "unat (w :: u32) \<le> 256 \<Longrightarrow> sint w = int (unat w)"
proof -
  assume a: "unat w \<le> 256"
  have e: "int (unat w) = uint w" by simp
  have "int (unat w) \<le> 256" using a by linarith
  then have b: "uint w \<le> 256" unfolding e .
  have p: "(256 :: int) < 2 ^ 31" "(0 :: int) \<le> 2 ^ 31" by simp_all
  have lo: "- (2 ^ 31) \<le> uint w" using uint_ge_0[of w] p(2) by linarith
  have hi: "uint w < 2 ^ 31" using b p(1) by linarith
  have "sint w = signed_take_bit 31 (uint w)" by (simp only: sint_uint) simp
  also have "\<dots> = uint w" using lo hi by (rule signed_take_bit_int_eq_self)
  finally show ?thesis unfolding e .
qed

text \<open>
  Claim C5.  On a freshly initialised ring (capacity 256), any 256 submissions in a row
  all return 0; one more submission returns \<open>-ENOSPC\<close> and leaves the descriptor array,
  \<open>head\<close>, \<open>tail\<close> and \<open>count\<close> as they were; and \<open>pcie_sim_ring_complete\<close> on a ring whose
  \<open>count\<close> is zero returns \<open>-ENODATA\<close>.
\<close>

theorem ring_overflow_underflow:
  assumes "length subs = 256"
  shows "ring_run (fresh_ring r0) (map submit_op subs) = replicate 256 (Submitted 0) \<and>
         fst (pcie_sim_ring_submit (ring_exec (fresh_ring r0) (map submit_op subs)) a l f n) = - ENOSPC \<and>
         descriptors (snd (pcie_sim_ring_submit (ring_exec (fresh_ring r0) (map submit_op subs)) a l f n))
           = descriptors (ring_exec (fresh_ring r0) (map submit_op subs)) \<and>
         head (snd (pcie_sim_ring_submit (ring_exec (fresh_ring r0) (map submit_op subs)) a l f n))
           = head (ring_exec (fresh_ring r0) (map submit_op subs)) \<and>
         tail (snd (pcie_sim_ring_submit (ring_exec (fresh_ring r0) (map submit_op subs)) a l f n))
           = tail (ring_exec (fresh_ring r0) (map submit_op subs)) \<and>
         count (snd (pcie_sim_ring_submit (ring_exec (fresh_ring r0) (map submit_op subs)) a l f n))
           = count (ring_exec (fresh_ring r0) (map submit_op subs)) \<and>
         (count e = 0 \<longrightarrow> fst (pcie_sim_ring_complete e lp tp st t) = - ENODATA)"
proof -
  define r where "r = ring_exec (fresh_ring r0) (map submit_op subs)"
  have c0: "unat (count (fresh_ring r0)) = 0"
    by (simp add: fresh_ring_def init_ring_def)
  have le: "unat (count (fresh_ring r0)) + length subs \<le> 256" using assms c0 by simp
  note s = submits_ok[OF ring_inv_fresh le]
  have run: "ring_run (fresh_ring r0) (map submit_op subs) = replicate 256 (Submitted 0)"
    using s assms by simp
  have cnt: "unat (count r) = 256" using s assms c0 by (simp add: r_def)
  have inv: "ring_inv r" unfolding r_def by (rule ring_inv_exec[OF ring_inv_fresh])
  have full: "count r \<ge> size_ring r" using cnt inv by (simp add: count_lt_iff)
  have sub: "pcie_sim_ring_submit r a l f n = (- ENOSPC, r\<lparr>overruns := overruns r + 1\<rparr>)"
    using full by (rule submit_full)
  have und: "count e = 0 \<longrightarrow> fst (pcie_sim_ring_complete e lp tp st t) = - ENODATA"
    by (simp add: complete_empty)
  show ?thesis
    unfolding r_def[symmetric] using run und by (simp add: sub)
qed

theorem ring_overflow_underflow_witness:
  "length (replicate 256 (0 :: u64, 64 :: u32, 0 :: u32, 0 :: u64)) = 256 \<and>
   count (fresh_ring null_ring) = 0 \<and>
   ring_run (fresh_ring null_ring) (map submit_op (replicate 256 (0, 64, 0, 0)))
     = replicate 256 (Submitted 0) \<and>
   fst (pcie_sim_ring_submit full_ring 0 64 0 0) = - ENOSPC \<and>
   fst (pcie_sim_ring_complete (fresh_ring null_ring) True True 0 0) = - ENODATA"
proof -
  have h: "length (replicate 256 (0 :: u64, 64 :: u32, 0 :: u32, 0 :: u64)) = 256" by simp
  have z: "count (fresh_ring null_ring) = 0" by (simp add: fresh_ring_def init_ring_def)
  note w = ring_overflow_underflow[OF h, of null_ring 0 64 0 0 "fresh_ring null_ring" True True 0 0]
  show ?thesis using h z w unfolding full_ring_def by blast
qed

text \<open>
  Claim C8, as amended.  Every ring reached from a fresh one by any sequence of submit and
  complete calls has \<open>size = 256\<close>, \<open>0 \<le> count \<le> size\<close> and \<open>head\<close>, \<open>tail\<close> below
  \<open>size\<close>.  A submission when \<open>count = size\<close> returns \<open>-ENOSPC\<close> and changes nothing in the
  ring but its \<open>overruns\<close> counter, which it increments; a completion when \<open>count = 0\<close>
  returns \<open>-ENODATA\<close> and changes nothing at all.
\<close>

theorem ring_invariant:
  "size_ring (ring_exec (fresh_ring r0) ops) = 256 \<and>
   0 \<le> sint (count (ring_exec (fresh_ring r0) ops)) \<and>
   count (ring_exec (fresh_ring r0) ops) \<le> size_ring (ring_exec (fresh_ring r0) ops) \<and>
   head (ring_exec (fresh_ring r0) ops) < size_ring (ring_exec (fresh_ring r0) ops) \<and>
   tail (ring_exec (fresh_ring r0) ops) < size_ring (ring_exec (fresh_ring r0) ops) \<and>
   (count (ring_exec (fresh_ring r0) ops) = size_ring (ring_exec (fresh_ring r0) ops) \<longrightarrow>
      pcie_sim_ring_submit (ring_exec (fresh_ring r0) ops) a l f n
        = (- ENOSPC, (ring_exec (fresh_ring r0) ops)
                       \<lparr>overruns := overruns (ring_exec (fresh_ring r0) ops) + 1\<rparr>)) \<and>
   (count (ring_exec (fresh_ring r0) ops) = 0 \<longrightarrow>
      pcie_sim_ring_complete (ring_exec (fresh_ring r0) ops) lp tp st t
        = (- ENODATA, ring_exec (fresh_ring r0) ops, None, None))"
proof -
  define r where "r = ring_exec (fresh_ring r0) ops"
  have inv: "ring_inv r" unfolding r_def by (rule ring_inv_exec[OF ring_inv_fresh])
  have c: "unat (count r) \<le> 256" using inv by (simp add: ring_inv_def)
  have s: "0 \<le> sint (count r)" using sint_small[OF c] by simp
  show ?thesis
    unfolding r_def[symmetric]
    using ring_inv_bounds[OF inv] s by (simp add: submit_full complete_empty)
qed

lemma full_ring_count: "count full_ring = size_ring full_ring"
proof -
  have c0: "unat (count (fresh_ring null_ring)) = 0"
    by (simp add: fresh_ring_def init_ring_def)
  have le: "unat (count (fresh_ring null_ring)) + length (replicate 256 (0 :: u64, 64 :: u32, 0 :: u32, 0 :: u64)) \<le> 256"
    using c0 by simp
  note s = submits_ok[OF ring_inv_fresh le]
  have cnt: "unat (count full_ring) = 256" using s c0 by (simp add: full_ring_def)
  have inv: "ring_inv full_ring" unfolding full_ring_def by (rule ring_inv_exec[OF ring_inv_fresh])
  have "unat (count full_ring) = unat (size_ring full_ring)"
    using cnt inv by (simp add: ring_inv_def)
  then show ?thesis by (simp add: word_unat_eq_iff)
qed

theorem ring_invariant_witness:
  "count full_ring = size_ring full_ring \<and>
   pcie_sim_ring_submit full_ring 0 64 0 0
     = (- ENOSPC, full_ring\<lparr>overruns := overruns full_ring + 1\<rparr>) \<and>
   count (ring_exec (fresh_ring null_ring) []) = 0 \<and>
   pcie_sim_ring_complete (ring_exec (fresh_ring null_ring) []) True True 0 0
     = (- ENODATA, ring_exec (fresh_ring null_ring) [], None, None)"
proof -
  note a = ring_invariant[of null_ring "map submit_op (replicate 256 (0, 64, 0, 0))" 0 64 0 0,
                          unfolded full_ring_def[symmetric]]
  note b = ring_invariant[of null_ring "[]"]
  have z: "count (ring_exec (fresh_ring null_ring) []) = 0"
    by (simp add: fresh_ring_def init_ring_def)
  show ?thesis using a b full_ring_count z by blast
qed

text \<open>Claim C8 as stated fails: the rejected submission on the full ring does modify
  the ring structure (its \<open>overruns\<close> member).\<close>

theorem full_submit_modifies_ring:
  "count full_ring = size_ring full_ring \<and>
   snd (pcie_sim_ring_submit full_ring 0 64 0 0) \<noteq> full_ring"
proof -
  have "count full_ring \<ge> size_ring full_ring" using full_ring_count by simp
  then have "snd (pcie_sim_ring_submit full_ring 0 64 0 0)
               = full_ring\<lparr>overruns := overruns full_ring + 1\<rparr>"
    by (simp add: submit_full)
  moreover have "overruns (full_ring\<lparr>overruns := overruns full_ring + 1\<rparr>) \<noteq> overruns full_ring"
    by simp
  ultimately show ?thesis using full_ring_count by metis
qed

theorem ring_fifo_order_witness:
  "ring_run (fresh_ring null_ring)
     [Submit 0 64 0 100, Submit 0 128 0 150, Complete 1 400, Complete 1 500, Complete 1 600]
   = [Submitted 0, Submitted 0, Completed 0 (Some 64) (Some 300),
      Completed 0 (Some 128) (Some 350), Completed (- ENODATA) None None]"
  using ring_fifo_order[of null_ring
      "[Submit 0 64 0 100, Submit 0 128 0 150, Complete 1 400, Complete 1 500, Complete 1 600]"]
  by simp

section \<open>Properties of the transfer paths and the statistics\<close>

lemma one_le_word: "(1 \<le> (w :: u64)) = (w \<noteq> 0)"
proof -
  have "(1 \<le> w) = (\<not> w < 1)" by (simp only: not_less)
  then show ?thesis by simp
qed

lemma kernel_validate_ok:
  "validate_transfer_request req = 0 \<longleftrightarrow>
     buffer req \<noteq> None \<and> 1 \<le> size_req req \<and> size_req req \<le> 1024 * 1024 \<and> direction req \<le> 1"
  by (auto simp: validate_transfer_request_def EINVAL_def MIN_TRANSFER_SIZE_def
                 MAX_TRANSFER_SIZE_def not_less one_le_word)

lemma kernel_validate_cases:
  "validate_transfer_request req = 0 \<or> validate_transfer_request req = - EINVAL"
  by (simp add: validate_transfer_request_def)

lemma kernel_transfer_invalid:
  "validate_transfer_request req \<noteq> 0 \<Longrightarrow>
   pcie_sim_dma_transfer dev req env = (- EINVAL, update_transfer_stats dev req 0 False, req, None)"
  using kernel_validate_cases[of req] by (simp add: pcie_sim_dma_transfer_def)

lemma update_fail:
  "update_transfer_stats dev req lat False
     = dev\<lparr>stats := (stats dev)\<lparr>total_errors := total_errors (stats dev) + 1\<rparr>\<rparr>"
  by (simp add: update_transfer_stats_def)

lemma kernel_transfer_fail:
  "fst (pcie_sim_dma_transfer dev req env) \<noteq> 0 \<Longrightarrow>
   fst (snd (pcie_sim_dma_transfer dev req env)) = update_transfer_stats dev req 0 False"
  by (simp add: pcie_sim_dma_transfer_def Let_def case_prod_beta split: if_splits)

lemma kernel_transfer_ok:
  "fst (pcie_sim_dma_transfer dev req env) = 0 \<Longrightarrow>
   fst (snd (pcie_sim_dma_transfer dev req env))
     = update_transfer_stats dev req (end_time env - start_time env) True"
  by (simp add: pcie_sim_dma_transfer_def Let_def case_prod_beta EINVAL_def ENOMEM_def EFAULT_def
                validate_transfer_request_def split: if_splits)

lemma kernel_transfer_ok_iff:
  "fst (pcie_sim_dma_transfer dev req env) = 0 \<longleftrightarrow>
     validate_transfer_request req = 0 \<and> alloc_ok env \<and>
     unat (size_req req) \<le> length (the (buffer req))"
  using kernel_validate_cases[of req]
  by (auto simp: pcie_sim_dma_transfer_def Let_def case_prod_beta EINVAL_def ENOMEM_def EFAULT_def
                copy_from_user_def copy_to_user_def split: if_splits)

subsection \<open>Linux steps\<close>

lemma linux_transfer_param:
  "handle = None \<or> buf = None \<or> sz = 0 \<or> MAX_DEVICES \<le> device_id (the handle) \<Longrightarrow>
   pcie_sim_transfer_linux g handle buf sz dir lp ts te = (PCIE_SIM_ERROR_PARAM, g, None, None)"
  by (simp add: pcie_sim_transfer_linux_def)

lemma linux_transfer_success:
  "\<not> (handle = None \<or> buf = None \<or> sz = 0 \<or> MAX_DEVICES \<le> device_id (the handle)) \<Longrightarrow>
   pcie_sim_transfer_linux g handle buf sz dir lp ts te =
     (PCIE_SIM_SUCCESS,
      g\<lparr>g_sim_devices := (g_sim_devices g)[nat (device_id (the handle)) :=
          (g_sim_devices g ! nat (device_id (the handle)))
            \<lparr>stats_linux := linux_update_stats
               (stats_linux (g_sim_devices g ! nat (device_id (the handle)))) sz (te - ts)\<rparr>]\<rparr>,
      (if lp then Some (te - ts) else None),
      Some (linux_sim_delay (linux_transfer_latency sz dir)))"
  by (simp add: pcie_sim_transfer_linux_def Let_def)

lemma linux_call_stats:
  assumes "x_size x \<noteq> 0" "device_id h < MAX_DEVICES" "nat (device_id h) < length (g_sim_devices g)"
  shows "linux_stats_of (linux_call h g x) h
           = linux_update_stats (linux_stats_of g h) (x_size x) (x_end x - x_start x)"
    and "length (g_sim_devices (linux_call h g x)) = length (g_sim_devices g)"
    and "g_sim_initialized (linux_call h g x) = g_sim_initialized g"
    and "active_linux (g_sim_devices (linux_call h g x) ! j) = active_linux (g_sim_devices g ! j)"
  using assms
  by (simp_all add: linux_call_def linux_stats_of_def linux_transfer_success nth_list_update)

lemma linux_run_stats:
  assumes "\<forall>x \<in> set xs. x_size x \<noteq> 0" "device_id h < MAX_DEVICES"
    "nat (device_id h) < length (g_sim_devices g)"
  shows "linux_stats_of (linux_run h g xs) h
           = foldl (\<lambda>s x. linux_update_stats s (x_size x) (x_end x - x_start x))
                   (linux_stats_of g h) xs"
  using assms
proof (induction xs arbitrary: g)
  case Nil
  show ?case by simp
next
  case (Cons x xs)
  have a: "x_size x \<noteq> 0" using Cons.prems(1) by simp
  have b: "nat (device_id h) < length (g_sim_devices (linux_call h g x))"
    using linux_call_stats(2)[OF a Cons.prems(2,3)] Cons.prems(3) by simp
  have c: "\<forall>x \<in> set xs. x_size x \<noteq> 0" using Cons.prems(1) by simp
  show ?case
    using Cons.IH[OF c Cons.prems(2) b] linux_call_stats(1)[OF a Cons.prems(2,3)]
    by simp
qed

lemma linux_open_fresh:
  "pcie_sim_open_linux linux_globals_init 0 True (Some null_handle)
     = (PCIE_SIM_SUCCESS,
        \<lparr>g_sim_devices = (replicate 8 \<lparr>active_linux = False, stats_linux = zero_stats\<rparr>)
             [0 := \<lparr>active_linux = True, stats_linux = zero_stats\<rparr>],
         g_sim_initialized = True\<rparr>,
        Some \<lparr>fd = - 1, device_id = 0, is_simulation = 1\<rparr>)"
  by (simp add: pcie_sim_open_linux_def linux_globals_init_def linux_sim_init_def MAX_DEVICES_def
                null_handle_def Let_def)

lemma linux_session_fold:
  assumes "\<forall>x \<in> set xs. x_size x \<noteq> 0"
  shows "linux_session xs
           = foldl (\<lambda>s x. linux_update_stats s (x_size x) (x_end x - x_start x)) zero_stats xs"
proof -
  define g where "g = \<lparr>g_sim_devices = (replicate 8 \<lparr>active_linux = False, stats_linux = zero_stats\<rparr>)
             [0 := \<lparr>active_linux = True, stats_linux = zero_stats\<rparr>],
         g_sim_initialized = True\<rparr>"
  define h where "h = \<lparr>fd = - 1, device_id = 0, is_simulation = 1\<rparr>"
  have s: "linux_session xs = linux_stats_of (linux_run h g xs) h"
    by (simp add: linux_session_def linux_open_fresh g_def h_def)
  have i: "device_id h < MAX_DEVICES" by (simp add: h_def MAX_DEVICES_def)
  have l: "nat (device_id h) < length (g_sim_devices g)" by (simp add: h_def g_def)
  have z: "linux_stats_of g h = zero_stats" by (simp add: linux_stats_of_def g_def h_def)
  show ?thesis unfolding s linux_run_stats[OF assms i l] z ..
qed

subsection \<open>Windows steps\<close>

lemma windows_transfer_param:
  "handle = None \<or> buf = None \<or> sz = 0 \<or> sz > 1024 * 1024 \<or>
   device_id (the handle) < 0 \<or> MAX_DEVICES \<le> device_id (the handle) \<Longrightarrow>
   pcie_sim_transfer_impl g handle buf sz dir lp env = (PCIE_SIM_ERROR_PARAM, g, buf, None, None)"
  by (auto simp: pcie_sim_transfer_impl_def)

lemma windows_transfer_success:
  assumes "\<not> (handle = None \<or> buf = None \<or> sz = 0 \<or> sz > 1024 * 1024 \<or>
             device_id (the handle) < 0 \<or> MAX_DEVICES \<le> device_id (the handle))"
    "active_win (g_devices g ! nat (device_id (the handle)))" "wait_ok env"
  shows "pcie_sim_transfer_impl g handle buf sz dir lp env =
     (PCIE_SIM_SUCCESS,
      g\<lparr>g_devices := (g_devices g)[nat (device_id (the handle)) :=
          (g_devices g ! nat (device_id (the handle)))
            \<lparr>stats_win := windows_update_stats
               (stats_win (g_devices g ! nat (device_id (the handle)))) sz
               (t_end_win env - t_start_win env)\<rparr>]\<rparr>,
      Some (if dir = PCIE_SIM_TO_DEVICE then the buf else memset (the buf) 0xAA (unat sz)),
      (if lp then Some (t_end_win env - t_start_win env) else None),
      Some (simulate_transfer_delay_win (ucast sz) (rand1 env) (rand2 env)))"
  using assms by (simp add: pcie_sim_transfer_impl_def Let_def)

lemma windows_call_stats:
  assumes "x_size x \<noteq> 0" "x_size x \<le> 1024 * 1024" "0 \<le> device_id h" "device_id h < MAX_DEVICES"
    "nat (device_id h) < length (g_devices g)" "active_win (g_devices g ! nat (device_id h))"
  shows "windows_stats_of (windows_call h g x) h
           = windows_update_stats (windows_stats_of g h) (x_size x) (x_end x - x_start x)"
    and "length (g_devices (windows_call h g x)) = length (g_devices g)"
    and "g_initialized (windows_call h g x) = g_initialized g"
    and "active_win (g_devices (windows_call h g x) ! j) = active_win (g_devices g ! j)"
  using assms
  by (simp_all add: windows_call_def windows_stats_of_def windows_transfer_success nth_list_update
                    not_less)

lemma windows_run_stats:
  assumes "\<forall>x \<in> set xs. x_size x \<noteq> 0 \<and> x_size x \<le> 1024 * 1024"
    "0 \<le> device_id h" "device_id h < MAX_DEVICES"
    "nat (device_id h) < length (g_devices g)" "active_win (g_devices g ! nat (device_id h))"
  shows "windows_stats_of (windows_run h g xs) h
           = foldl (\<lambda>s x. windows_update_stats s (x_size x) (x_end x - x_start x))
                   (windows_stats_of g h) xs"
  using assms
proof (induction xs arbitrary: g)
  case Nil
  show ?case by simp
next
  case (Cons x xs)
  have a: "x_size x \<noteq> 0" "x_size x \<le> 1024 * 1024" using Cons.prems(1) by simp_all
  note st = windows_call_stats[OF a Cons.prems(2,3,4,5)]
  have b: "nat (device_id h) < length (g_devices (windows_call h g x))"
    using st(2) Cons.prems(4) by simp
  have act: "active_win (g_devices (windows_call h g x) ! nat (device_id h))"
    using st(4) Cons.prems(5) by simp
  have c: "\<forall>x \<in> set xs. x_size x \<noteq> 0 \<and> x_size x \<le> 1024 * 1024" using Cons.prems(1) by simp
  show ?case
    using Cons.IH[OF c Cons.prems(2,3) b act] st(1)
    by simp
qed

lemma init_loop_length:
  "length (snd (windows_sim_init_loop ok is devs)) = length devs"
  by (induction "is" arbitrary: devs) (simp_all add: Let_def)

lemma win_state_all:
  "(d :: windows_device_state)\<lparr>active_win := a, stats_win := s\<rparr>
     = \<lparr>active_win = a, stats_win = s\<rparr>"
  by (cases d) simp

lemma init_loop_ok:
  assumes "\<forall>i \<in> set is. ok i \<and> i < length devs"
  shows "fst (windows_sim_init_loop ok is devs) \<and>
         (\<forall>j < length devs. snd (windows_sim_init_loop ok is devs) ! j =
             (if j \<in> set is then \<lparr>active_win = False, stats_win = windows_fresh_stats\<rparr>
              else devs ! j))"
  using assms
proof (induction "is" arbitrary: devs)
  case Nil
  show ?case by simp
next
  case (Cons i "is")
  define devs2 where
    "devs2 = devs[i := \<lparr>active_win = False, stats_win = windows_fresh_stats\<rparr>]"
  have step: "windows_sim_init_loop ok (i # is) devs = windows_sim_init_loop ok is devs2"
    using Cons.prems by (simp add: Let_def devs2_def win_state_all)
  have len: "length devs2 = length devs" by (simp add: devs2_def)
  have "\<forall>k \<in> set is. ok k \<and> k < length devs2" using Cons.prems len by simp
  from Cons.IH[OF this] show ?case
    unfolding step len using Cons.prems
    by (auto simp: devs2_def nth_list_update)
qed

lemma windows_init_done: "g_initialized g \<Longrightarrow> windows_sim_init ok g = (0, g)"
  by (simp add: windows_sim_init_def)

lemma windows_init_result:
  "fst (windows_sim_init ok g) = 0 \<Longrightarrow>
   g_initialized (snd (windows_sim_init ok g)) \<and>
   length (g_devices (snd (windows_sim_init ok g))) = length (g_devices g)"
  using init_loop_length[of ok "[0 ..< 8]" "g_devices g"]
  by (auto simp: windows_sim_init_def split: prod.splits bool.splits if_splits)

lemma windows_init_fresh:
  "windows_sim_init (\<lambda>i. True) windows_globals_init
     = (0, \<lparr>g_devices = replicate 8 \<lparr>active_win = False, stats_win = windows_fresh_stats\<rparr>,
            g_initialized = True\<rparr>)"
proof -
  define devs where "devs = replicate 8 \<lparr>active_win = False, stats_win = zero_stats\<rparr>"
  have len: "length devs = 8" by (simp add: devs_def)
  have "\<forall>i \<in> set [0 ..< 8]. (\<lambda>i. True) i \<and> i < length devs" using len by simp
  note r = init_loop_ok[OF this]
  have l2: "length (snd (windows_sim_init_loop (\<lambda>i. True) [0 ..< 8] devs)) = 8"
    using init_loop_length[of "\<lambda>i. True" "[0 ..< 8]" devs] len by simp
  have "snd (windows_sim_init_loop (\<lambda>i. True) [0 ..< 8] devs)
          = replicate 8 \<lparr>active_win = False, stats_win = windows_fresh_stats\<rparr>"
  proof (rule nth_equalityI)
    show "length (snd (windows_sim_init_loop (\<lambda>i. True) [0 ..< 8] devs))
            = length (replicate 8 \<lparr>active_win = False, stats_win = windows_fresh_stats\<rparr>)"
      using l2 by simp
  next
    fix j assume "j < length (snd (windows_sim_init_loop (\<lambda>i. True) [0 ..< 8] devs))"
    then have j: "j < 8" using l2 by simp
    then have "snd (windows_sim_init_loop (\<lambda>i. True) [0 ..< 8] devs) ! j
                 = \<lparr>active_win = False, stats_win = windows_fresh_stats\<rparr>"
      using r len by simp
    then show "snd (windows_sim_init_loop (\<lambda>i. True) [0 ..< 8] devs) ! j
                 = replicate 8 \<lparr>active_win = False, stats_win = windows_fresh_stats\<rparr> ! j"
      using j by simp
  qed
  moreover have "fst (windows_sim_init_loop (\<lambda>i. True) [0 ..< 8] devs)" using r by simp
  ultimately have "windows_sim_init_loop (\<lambda>i. True) [0 ..< 8] devs
        = (True, replicate 8 \<lparr>active_win = False, stats_win = windows_fresh_stats\<rparr>)"
    by (metis prod.collapse)
  then show ?thesis
    by (simp add: windows_sim_init_def windows_globals_init_def devs_def)
qed

lemma windows_open_fresh:
  "pcie_sim_open_impl windows_globals_init 0 True (\<lambda>i. True) (Some null_handle)
     = (PCIE_SIM_SUCCESS,
        \<lparr>g_devices = (replicate 8 \<lparr>active_win = False, stats_win = windows_fresh_stats\<rparr>)
             [0 := \<lparr>active_win = True, stats_win = windows_fresh_stats\<rparr>],
         g_initialized = True\<rparr>,
        Some \<lparr>fd = 0, device_id = 0, is_simulation = 0\<rparr>)"
  by (simp add: pcie_sim_open_impl_def windows_init_fresh MAX_DEVICES_def null_handle_def Let_def)

lemma windows_session_fold:
  assumes "\<forall>x \<in> set xs. x_size x \<noteq> 0 \<and> x_size x \<le> 1024 * 1024"
  shows "windows_session xs
           = foldl (\<lambda>s x. windows_update_stats s (x_size x) (x_end x - x_start x))
                   windows_fresh_stats xs"
proof -
  define g where "g = \<lparr>g_devices = (replicate 8 \<lparr>active_win = False, stats_win = windows_fresh_stats\<rparr>)
             [0 := \<lparr>active_win = True, stats_win = windows_fresh_stats\<rparr>],
         g_initialized = True\<rparr>"
  define h where "h = \<lparr>fd = 0, device_id = 0, is_simulation = 0\<rparr>"
  have s: "windows_session xs = windows_stats_of (windows_run h g xs) h"
    by (simp add: windows_session_def windows_open_fresh g_def h_def)
  have i0: "0 \<le> device_id h" by (simp add: h_def)
  have i: "device_id h < MAX_DEVICES" by (simp add: h_def MAX_DEVICES_def)
  have l: "nat (device_id h) < length (g_devices g)" by (simp add: h_def g_def)
  have a: "active_win (g_devices g ! nat (device_id h))" by (simp add: h_def g_def)
  have z: "windows_stats_of g h = windows_fresh_stats" by (simp add: windows_stats_of_def g_def h_def)
  show ?thesis unfolding s windows_run_stats[OF assms i0 i l a] z ..
qed

subsection \<open>Kernel session\<close>

lemma kernel_call_ok:
  assumes "call_ok x"
  shows "kernel_call dev x
           = update_transfer_stats dev
               \<lparr>buffer = Some (x_buf x), size_req = x_size x, direction = x_dir x, latency_ns = 0\<rparr>
               (x_end x - x_start x) True"
proof -
  let ?req = "\<lparr>buffer = Some (x_buf x), size_req = x_size x, direction = x_dir x, latency_ns = 0\<rparr>"
  let ?env = "\<lparr>alloc_ok = True, start_time = x_start x, end_time = x_end x,
        jitter = of_nat (x_rand1 x mod 20)\<rparr>"
  have v: "validate_transfer_request ?req = 0"
    using assms by (simp add: kernel_validate_ok call_ok_def)
  have "fst (pcie_sim_dma_transfer dev ?req ?env) = 0"
    using v assms by (simp add: kernel_transfer_ok_iff call_ok_def)
  from kernel_transfer_ok[OF this] show ?thesis by (simp add: kernel_call_def)
qed

lemma of_nat_u64_zero: "n < 2 ^ 64 \<Longrightarrow> (of_nat n = (0 :: u64)) = (n = 0)"
proof
  assume n: "n < 2 ^ 64" and z: "of_nat n = (0 :: u64)"
  have "unat (of_nat n :: u64) = n" using n by (simp add: unat_of_nat)
  then show "n = 0" unfolding z by simp
next
  assume "n = 0" then show "of_nat n = (0 :: u64)" by simp
qed

lemma word_not_gt_zero: "\<not> (0 :: u64) < lat \<Longrightarrow> lat = 0"
  using word_gt_0[of lat] by auto

lemma word_not_lt_max: "\<not> lat < UINT64_MAX \<Longrightarrow> lat = UINT64_MAX"
proof -
  assume "\<not> lat < UINT64_MAX"
  then have "UINT64_MAX \<le> lat" by (simp add: not_less)
  moreover have "lat \<le> UINT64_MAX" by (simp add: UINT64_MAX_def)
  ultimately show ?thesis by (rule antisym[rotated])
qed

lemma kernel_update_fields:
  "stats (update_transfer_stats dev req lat True) =
     \<lparr>total_transfers = total_transfers (stats dev) + 1,
      total_bytes = total_bytes (stats dev) + size_req req,
      total_errors = total_errors (stats dev),
      avg_latency_ns = (avg_latency_ns (stats dev) + lat) div 2,
      min_latency_ns = (if min_latency_ns (stats dev) = 0 \<or> lat < min_latency_ns (stats dev)
                        then lat else min_latency_ns (stats dev)),
      max_latency_ns = (if lat > max_latency_ns (stats dev) then lat
                        else max_latency_ns (stats dev))\<rparr>"
  by (cases "stats dev") (simp add: update_transfer_stats_def Let_def)

lemma linux_update_fields:
  "linux_update_stats s sz lat =
     \<lparr>total_transfers = total_transfers s + 1,
      total_bytes = total_bytes s + sz,
      total_errors = total_errors s,
      avg_latency_ns = (if total_transfers s + 1 = 1 then lat else (avg_latency_ns s + lat) div 2),
      min_latency_ns = (if total_transfers s + 1 = 1 then lat
                        else if lat < min_latency_ns s then lat else min_latency_ns s),
      max_latency_ns = (if total_transfers s + 1 = 1 then lat
                        else if lat > max_latency_ns s then lat else max_latency_ns s)\<rparr>"
  by (cases s) (simp add: linux_update_stats_def Let_def)

lemma windows_update_fields:
  "windows_update_stats s sz lat =
     \<lparr>total_transfers = total_transfers s + 1,
      total_bytes = total_bytes s + sz,
      total_errors = total_errors s,
      avg_latency_ns = (if total_transfers s + 1 = 1 then lat
                        else (avg_latency_ns s * (total_transfers s + 1 - 1) + lat)
                               div (total_transfers s + 1)),
      min_latency_ns = (if lat < min_latency_ns s then lat else min_latency_ns s),
      max_latency_ns = (if lat > max_latency_ns s then lat else max_latency_ns s)\<rparr>"
  by (cases s) (simp add: windows_update_stats_def Let_def)

lemma succ_is_one: "n < 2 ^ 64 \<Longrightarrow> ((of_nat n :: u64) + 1 = 1) = (n = 0)"
  by (simp add: of_nat_u64_zero)

lemma stats_agree_step:
  assumes "stats_agree n (stats dev) l w" "Suc n < 2 ^ 64"
  shows "stats_agree (Suc n) (stats (update_transfer_stats dev req lat True))
           (linux_update_stats l (size_req req) lat) (windows_update_stats w (size_req req) lat)"
proof -
  have n: "n < 2 ^ 64" using assms(2) by simp
  have tt: "total_transfers (stats dev) = of_nat n" "total_transfers l = of_nat n"
    "total_transfers w = of_nat n"
    and tb: "total_bytes (stats dev) = total_bytes l" "total_bytes l = total_bytes w"
    and te: "total_errors (stats dev) = 0" "total_errors l = 0" "total_errors w = 0"
    and mx: "max_latency_ns (stats dev) = max_latency_ns l" "max_latency_ns l = max_latency_ns w"
    using assms(1) by (simp_all add: stats_agree_def)
  show ?thesis
  proof (cases "n = 0")
    case True
    then have z: "max_latency_ns w = 0" "min_latency_ns w = UINT64_MAX" "max_latency_ns l = 0"
      using assms(1) by (auto simp: stats_agree_def)
    show ?thesis
      using True z tt tb te mx word_not_gt_zero[of lat] word_not_lt_max[of lat]
      by (auto simp: stats_agree_def kernel_update_fields linux_update_fields windows_update_fields)
  next
    case False
    then have m: "min_latency_ns l = min_latency_ns w"
      using assms(1) by (simp add: stats_agree_def)
    have one: "(of_nat n :: u64) + 1 \<noteq> 1" using False succ_is_one[OF n] by simp
    show ?thesis
      using one tt tb te mx m
      by (simp add: stats_agree_def kernel_update_fields linux_update_fields windows_update_fields)
  qed
qed

lemma kernel_min_agree_step:
  assumes "kernel_min_agree n (stats dev) l" "Suc n < 2 ^ 64" "lat \<noteq> 0"
  shows "kernel_min_agree (Suc n) (stats (update_transfer_stats dev req lat True))
           (linux_update_stats l (size_req req) lat)"
proof -
  have n: "n < 2 ^ 64" using assms(2) by simp
  have tt: "total_transfers l = of_nat n" using assms(1) by (simp add: kernel_min_agree_def)
  show ?thesis
  proof (cases "n = 0")
    case True
    then have "min_latency_ns (stats dev) = 0" using assms(1) by (simp add: kernel_min_agree_def)
    then show ?thesis using True tt assms(3)
      by (simp add: kernel_min_agree_def kernel_update_fields linux_update_fields)
  next
    case False
    then have m: "min_latency_ns (stats dev) = min_latency_ns l" "min_latency_ns l \<noteq> 0"
      using assms(1) by (auto simp: kernel_min_agree_def)
    have one: "(of_nat n :: u64) + 1 \<noteq> 1" using False succ_is_one[OF n] by simp
    show ?thesis
      using one tt m assms(3)
      by (auto simp: kernel_min_agree_def kernel_update_fields linux_update_fields)
  qed
qed

lemma agree_run:
  assumes "stats_agree n (stats dev) l w" "n + length xs < 2 ^ 64" "\<forall>x \<in> set xs. call_ok x"
  shows "stats_agree (n + length xs) (stats (kernel_run dev xs))
           (foldl (\<lambda>s x. linux_update_stats s (x_size x) (lat_of x)) l xs)
           (foldl (\<lambda>s x. windows_update_stats s (x_size x) (lat_of x)) w xs)"
  using assms
proof (induction xs arbitrary: n dev l w)
  case Nil
  then show ?case by simp
next
  case (Cons x xs)
  have ok: "call_ok x" using Cons.prems(3) by simp
  have sn: "Suc n < 2 ^ 64" using Cons.prems(2) by simp
  note st = stats_agree_step[OF Cons.prems(1) sn,
      of "\<lparr>buffer = Some (x_buf x), size_req = x_size x, direction = x_dir x, latency_ns = 0\<rparr>"
         "lat_of x"]
  have a: "stats_agree (Suc n) (stats (kernel_call dev x))
             (linux_update_stats l (x_size x) (lat_of x))
             (windows_update_stats w (x_size x) (lat_of x))"
    using st by (simp add: kernel_call_ok[OF ok])
  have b: "Suc n + length xs < 2 ^ 64" using Cons.prems(2) by simp
  have c: "\<forall>x \<in> set xs. call_ok x" using Cons.prems(3) by simp
  show ?case using Cons.IH[OF a b c] by simp
qed

lemma kernel_min_run:
  assumes "kernel_min_agree n (stats dev) l" "n + length xs < 2 ^ 64"
    "\<forall>x \<in> set xs. call_ok x \<and> lat_of x \<noteq> 0"
  shows "kernel_min_agree (n + length xs) (stats (kernel_run dev xs))
           (foldl (\<lambda>s x. linux_update_stats s (x_size x) (lat_of x)) l xs)"
  using assms
proof (induction xs arbitrary: n dev l)
  case Nil
  then show ?case by simp
next
  case (Cons x xs)
  have ok: "call_ok x" and nz: "lat_of x \<noteq> 0" using Cons.prems(3) by simp_all
  have sn: "Suc n < 2 ^ 64" using Cons.prems(2) by simp
  note st = kernel_min_agree_step[OF Cons.prems(1) sn nz,
      of "\<lparr>buffer = Some (x_buf x), size_req = x_size x, direction = x_dir x, latency_ns = 0\<rparr>"]
  have a: "kernel_min_agree (Suc n) (stats (kernel_call dev x))
             (linux_update_stats l (x_size x) (lat_of x))"
    using st by (simp add: kernel_call_ok[OF ok])
  have b: "Suc n + length xs < 2 ^ 64" using Cons.prems(2) by simp
  have c: "\<forall>x \<in> set xs. call_ok x \<and> lat_of x \<noteq> 0" using Cons.prems(3) by simp
  show ?case using Cons.IH[OF a b c] by simp
qed

lemma call_ok_size: "call_ok x \<Longrightarrow> x_size x \<noteq> 0 \<and> x_size x \<le> 1024 * 1024"
  by (auto simp: call_ok_def)

lemma sessions_agree:
  assumes "\<forall>x \<in> set xs. call_ok x" "length xs < 2 ^ 64"
  shows "stats_agree (length xs) (kernel_session xs) (linux_session xs) (windows_session xs)"
proof -
  have l: "\<forall>x \<in> set xs. x_size x \<noteq> 0" using assms(1) call_ok_size by blast
  have w: "\<forall>x \<in> set xs. x_size x \<noteq> 0 \<and> x_size x \<le> 1024 * 1024"
    using assms(1) call_ok_size by blast
  have i: "stats_agree 0 (stats (pcie_sim_probe 0)) zero_stats windows_fresh_stats"
    by (simp add: stats_agree_def pcie_sim_probe_def zero_stats_def windows_fresh_stats_def)
  have b: "0 + length xs < 2 ^ 64" using assms(2) by simp
  show ?thesis
    using agree_run[OF i b assms(1)]
    by (simp add: kernel_session_def linux_session_fold[OF l] windows_session_fold[OF w])
qed

text \<open>
  Claim C2, as amended.  For every sequence of fewer than \<open>2^64\<close> transfer requests that all
  three backends accept, applied with identical clock readings and random draws to a
  freshly probed kernel device and to freshly opened simulator devices, the three
  statistics blocks have identical \<open>total_transfers\<close>, \<open>total_bytes\<close>, \<open>total_errors\<close> and
  \<open>max_latency_ns\<close>; \<open>min_latency_ns\<close> is identical on the two simulators once a transfer
  has completed, and on the kernel as well when no measured latency is zero.  Nothing is
  said about \<open>avg_latency_ns\<close>.
\<close>

theorem backend_statistics_agreement:
  assumes "\<forall>x \<in> set xs. call_ok x" "length xs < 2 ^ 64"
  shows "total_transfers (kernel_session xs) = total_transfers (linux_session xs) \<and>
         total_transfers (linux_session xs) = total_transfers (windows_session xs) \<and>
         total_bytes (kernel_session xs) = total_bytes (linux_session xs) \<and>
         total_bytes (linux_session xs) = total_bytes (windows_session xs) \<and>
         total_errors (kernel_session xs) = total_errors (linux_session xs) \<and>
         total_errors (linux_session xs) = total_errors (windows_session xs) \<and>
         max_latency_ns (kernel_session xs) = max_latency_ns (linux_session xs) \<and>
         max_latency_ns (linux_session xs) = max_latency_ns (windows_session xs) \<and>
         (xs \<noteq> [] \<longrightarrow> min_latency_ns (linux_session xs) = min_latency_ns (windows_session xs)) \<and>
         (xs \<noteq> [] \<and> (\<forall>x \<in> set xs. x_end x - x_start x \<noteq> 0) \<longrightarrow>
            min_latency_ns (kernel_session xs) = min_latency_ns (linux_session xs))"
proof -
  note a = sessions_agree[OF assms]
  have m: "min_latency_ns (kernel_session xs) = min_latency_ns (linux_session xs)"
    if ne: "xs \<noteq> []" and nz: "\<forall>x \<in> set xs. lat_of x \<noteq> 0"
  proof -
    have l: "\<forall>x \<in> set xs. x_size x \<noteq> 0" using assms(1) call_ok_size by blast
    have i: "kernel_min_agree 0 (stats (pcie_sim_probe 0)) zero_stats"
      by (simp add: kernel_min_agree_def pcie_sim_probe_def zero_stats_def)
    have b: "0 + length xs < 2 ^ 64" using assms(2) by simp
    have c: "\<forall>x \<in> set xs. call_ok x \<and> lat_of x \<noteq> 0" using assms(1) nz by simp
    have "kernel_min_agree (length xs) (kernel_session xs) (linux_session xs)"
      using kernel_min_run[OF i b c]
      by (simp add: kernel_session_def linux_session_fold[OF l])
    then show ?thesis using ne by (simp add: kernel_min_agree_def)
  qed
  show ?thesis
    using a m by (auto simp: stats_agree_def)
qed

lemma spec_avg_from_snoc: "spec_avg_from a (ls @ [l]) = (spec_avg_from a ls + l) div 2"
  by (induction ls arbitrary: a) simp_all

lemma spec_running_avg_snoc:
  "spec_running_avg (ls @ [l]) = (if ls = [] then l else (spec_running_avg ls + l) div 2)"
  by (cases ls) (simp_all add: spec_running_avg_def spec_avg_from_snoc)

lemma kernel_run_append: "kernel_run dev (xs @ ys) = kernel_run (kernel_run dev xs) ys"
  by (induction xs arbitrary: dev) simp_all

lemma kernel_session_snoc:
  assumes "call_ok x"
  shows "avg_latency_ns (kernel_session (xs @ [x]))
           = (avg_latency_ns (kernel_session xs) + lat_of x) div 2"
  by (simp add: kernel_session_def kernel_run_append kernel_call_ok[OF assms] kernel_update_fields)

lemma call64_ok: "call_ok (call64 lat)"
  by (simp add: call_ok_def call64_def)

lemma call64_fields: "x_size (call64 lat) = 64" "x_end (call64 lat) - x_start (call64 lat) = lat"
  by (simp_all add: call64_def)

lemma windows_three:
  "avg_latency_ns (windows_session [call64 10, call64 20, call64 60]) = 30"
proof -
  have a: "\<forall>x \<in> set [call64 10, call64 20, call64 60]. x_size x \<noteq> 0 \<and> x_size x \<le> 1024 * 1024"
    by (simp add: call64_def)
  show ?thesis
    by (simp add: windows_session_fold[OF a] call64_fields windows_update_fields
                  windows_fresh_stats_def zero_stats_def)
qed

lemma linux_three:
  "avg_latency_ns (linux_session [call64 10, call64 20, call64 60]) = 37"
proof -
  have a: "\<forall>x \<in> set [call64 10, call64 20, call64 60]. x_size x \<noteq> 0"
    by (simp add: call64_def)
  show ?thesis
    by (simp add: linux_session_fold[OF a] call64_fields linux_update_fields zero_stats_def)
qed

text \<open>The kernel has no first-sample branch: from the zeroed block its first successful
  transfer leaves half of the measured latency as the average.\<close>

lemma kernel_first_sample:
  assumes "call_ok x"
  shows "avg_latency_ns (kernel_session [x]) = (x_end x - x_start x) div 2"
proof -
  have z: "avg_latency_ns (kernel_session []) = 0"
    by (simp add: kernel_session_def pcie_sim_probe_def zero_stats_def)
  show ?thesis
    using kernel_session_snoc[OF assms, of "[]"] z by simp
qed

text \<open>Claim C1 as stated fails on the Windows simulator at the third transfer.\<close>

theorem windows_average_is_not_policy:
  "avg_latency_ns (windows_session [call64 10, call64 20, call64 60]) = 30 \<and>
   spec_running_avg (map (\<lambda>y. x_end y - x_start y) [call64 10, call64 20, call64 60]) = 37 \<and>
   avg_latency_ns (windows_session [call64 10, call64 20, call64 60])
     \<noteq> spec_running_avg (map (\<lambda>y. x_end y - x_start y) [call64 10, call64 20, call64 60])"
  by (simp add: windows_three call64_fields spec_running_avg_def)

text \<open>Claim C2 as stated fails: the same three accepted requests leave different
  statistics on the Windows and the Linux simulator.\<close>

theorem backends_disagree:
  "call_ok (call64 10) \<and> call_ok (call64 20) \<and> call_ok (call64 60) \<and>
   avg_latency_ns (windows_session [call64 10, call64 20, call64 60]) = 30 \<and>
   avg_latency_ns (linux_session [call64 10, call64 20, call64 60]) = 37 \<and>
   windows_session [call64 10, call64 20, call64 60]
     \<noteq> linux_session [call64 10, call64 20, call64 60]"
proof -
  have "avg_latency_ns (windows_session [call64 10, call64 20, call64 60])
          \<noteq> avg_latency_ns (linux_session [call64 10, call64 20, call64 60])"
    by (simp add: windows_three linux_three)
  then have "windows_session [call64 10, call64 20, call64 60]
     \<noteq> linux_session [call64 10, call64 20, call64 60]" by metis
  then show ?thesis by (simp add: call64_ok windows_three linux_three)
qed

lemma linux_transfer_accepts:
  "\<not> (handle = None \<or> buf = None \<or> sz = 0 \<or> MAX_DEVICES \<le> device_id (the handle)) \<Longrightarrow>
   fst (pcie_sim_transfer_linux g handle buf sz dir lp ts te) = PCIE_SIM_SUCCESS"
  by (simp add: linux_transfer_success)

lemma windows_transfer_not_param:
  "\<not> (handle = None \<or> buf = None \<or> sz = 0 \<or> sz > 1024 * 1024 \<or>
      device_id (the handle) < 0 \<or> MAX_DEVICES \<le> device_id (the handle)) \<Longrightarrow>
   fst (pcie_sim_transfer_impl g handle buf sz dir lp env) \<noteq> PCIE_SIM_ERROR_PARAM"
  by (simp add: pcie_sim_transfer_impl_def Let_def not_less)

text \<open>
  Claim C3, as amended.  The kernel accepts a request only if its buffer is not \<open>NULL\<close>,
  \<open>1 \<le> size \<le> 2^20\<close> and \<open>direction \<in> {0, 1}\<close>; any other request returns \<open>-EINVAL\<close> and
  changes the statistics in \<open>total_errors\<close> only, which is incremented.  The Linux simulator
  returns the parameter error exactly when the handle or the buffer is \<open>NULL\<close>, the size is
  zero or the device id is 8 or more, and then leaves its state unchanged; it checks
  neither an upper size bound nor the direction.  The Windows simulator returns the
  parameter error exactly when the handle or the buffer is \<open>NULL\<close>, the size is zero or above
  \<open>2^20\<close>, or the device id is outside \<open>0..7\<close>, and then leaves its state unchanged; it does
  not check the direction.
\<close>

theorem transfer_validation:
  "(validate_transfer_request req = 0 \<longleftrightarrow>
      buffer req \<noteq> None \<and> 1 \<le> size_req req \<and> size_req req \<le> 1024 * 1024 \<and> direction req \<le> 1) \<and>
   (fst (pcie_sim_dma_transfer dev req env) = 0 \<longrightarrow>
      buffer req \<noteq> None \<and> 1 \<le> size_req req \<and> size_req req \<le> 1024 * 1024 \<and> direction req \<le> 1) \<and>
   (\<not> (buffer req \<noteq> None \<and> 1 \<le> size_req req \<and> size_req req \<le> 1024 * 1024 \<and> direction req \<le> 1) \<longrightarrow>
      pcie_sim_dma_transfer dev req env
        = (- EINVAL, dev\<lparr>stats := (stats dev)\<lparr>total_errors := total_errors (stats dev) + 1\<rparr>\<rparr>,
           req, None)) \<and>
   (handle = None \<or> buf = None \<or> sz = 0 \<or> MAX_DEVICES \<le> device_id (the handle) \<longrightarrow>
      pcie_sim_transfer_linux g handle buf sz dir lp ts te = (PCIE_SIM_ERROR_PARAM, g, None, None)) \<and>
   (\<not> (handle = None \<or> buf = None \<or> sz = 0 \<or> MAX_DEVICES \<le> device_id (the handle)) \<longrightarrow>
      fst (pcie_sim_transfer_linux g handle buf sz dir lp ts te) = PCIE_SIM_SUCCESS) \<and>
   (whandle = None \<or> wbuf = None \<or> wsz = 0 \<or> wsz > 1024 * 1024 \<or>
    device_id (the whandle) < 0 \<or> MAX_DEVICES \<le> device_id (the whandle) \<longrightarrow>
      pcie_sim_transfer_impl wg whandle wbuf wsz wdir wlp wenv
        = (PCIE_SIM_ERROR_PARAM, wg, wbuf, None, None)) \<and>
   (\<not> (whandle = None \<or> wbuf = None \<or> wsz = 0 \<or> wsz > 1024 * 1024 \<or>
       device_id (the whandle) < 0 \<or> MAX_DEVICES \<le> device_id (the whandle)) \<longrightarrow>
      fst (pcie_sim_transfer_impl wg whandle wbuf wsz wdir wlp wenv) \<noteq> PCIE_SIM_ERROR_PARAM)"
proof -
  have k1: "validate_transfer_request req = 0 \<longleftrightarrow>
      buffer req \<noteq> None \<and> 1 \<le> size_req req \<and> size_req req \<le> 1024 * 1024 \<and> direction req \<le> 1"
    by (rule kernel_validate_ok)
  have k2: "fst (pcie_sim_dma_transfer dev req env) = 0 \<longrightarrow>
      buffer req \<noteq> None \<and> 1 \<le> size_req req \<and> size_req req \<le> 1024 * 1024 \<and> direction req \<le> 1"
    using kernel_transfer_ok_iff[of dev req env] k1 by blast
  have k3: "\<not> (buffer req \<noteq> None \<and> 1 \<le> size_req req \<and> size_req req \<le> 1024 * 1024 \<and> direction req \<le> 1) \<longrightarrow>
      pcie_sim_dma_transfer dev req env
        = (- EINVAL, dev\<lparr>stats := (stats dev)\<lparr>total_errors := total_errors (stats dev) + 1\<rparr>\<rparr>,
           req, None)"
    using kernel_transfer_invalid[of req dev env] k1 update_fail[of dev req 0] by metis
  show ?thesis
    using k1 k2 k3 linux_transfer_param[of handle buf sz g dir lp ts te]
      linux_transfer_accepts[of handle buf sz g dir lp ts te]
      windows_transfer_not_param[of whandle wbuf wsz wg wdir wlp wenv]
      windows_transfer_param[of whandle wbuf wsz wg wdir wlp wenv]
    by blast
qed

lemma kernel_small_accepted:
  "fst (pcie_sim_dma_transfer dev (req_of_size 32 0) env_example) = 0"
  by (simp add: kernel_transfer_ok_iff kernel_validate_ok req_of_size_def env_example_def)

lemma kernel_zero_rejected:
  "pcie_sim_dma_transfer dev (req_of_size 0 0) env
     = (- EINVAL, dev\<lparr>stats := (stats dev)\<lparr>total_errors := total_errors (stats dev) + 1\<rparr>\<rparr>,
        req_of_size 0 0, None)"
proof -
  have "validate_transfer_request (req_of_size 0 0) \<noteq> 0"
    by (simp add: kernel_validate_ok req_of_size_def)
  then show ?thesis by (simp add: kernel_transfer_invalid update_fail)
qed

text \<open>Claim C3 as stated fails on the kernel: a 32-byte request is accepted, and a
  rejected request does change the statistics.\<close>

theorem validation_bounds_differ:
  "\<not> (64 \<le> size_req (req_of_size 32 0)) \<and>
   fst (pcie_sim_dma_transfer (pcie_sim_probe 0) (req_of_size 32 0) env_example) = 0 \<and>
   fst (pcie_sim_dma_transfer (pcie_sim_probe 0) (req_of_size 0 0) env_example) = - EINVAL \<and>
   total_errors (stats (fst (snd
       (pcie_sim_dma_transfer (pcie_sim_probe 0) (req_of_size 0 0) env_example)))) = 1 \<and>
   total_errors (stats (pcie_sim_probe 0)) = 0"
proof -
  have a: "\<not> (64 \<le> size_req (req_of_size 32 0))" by (simp add: req_of_size_def)
  have b: "total_errors (stats (pcie_sim_probe 0)) = 0"
    by (simp add: pcie_sim_probe_def zero_stats_def)
  have c: "total_errors (stats (fst (snd
       (pcie_sim_dma_transfer (pcie_sim_probe 0) (req_of_size 0 0) env_example)))) = 1"
    unfolding kernel_zero_rejected using b by simp
  have d: "fst (pcie_sim_dma_transfer (pcie_sim_probe 0) (req_of_size 0 0) env_example) = - EINVAL"
    unfolding kernel_zero_rejected by simp
  show ?thesis using a b c d kernel_small_accepted[of "pcie_sim_probe 0"] by blast
qed

theorem transfer_validation_witness:
  "fst (pcie_sim_dma_transfer (pcie_sim_probe 0) (req_of_size 32 0) env_example) = 0 \<and>
   1 \<le> size_req (req_of_size 32 0) \<and> size_req (req_of_size 32 0) \<le> 1024 * 1024 \<and>
   \<not> (1 \<le> size_req (req_of_size 0 0)) \<and>
   pcie_sim_dma_transfer (pcie_sim_probe 0) (req_of_size 0 0) env_example
     = (- EINVAL,
        (pcie_sim_probe 0)\<lparr>stats := (stats (pcie_sim_probe 0))
            \<lparr>total_errors := total_errors (stats (pcie_sim_probe 0)) + 1\<rparr>\<rparr>,
        req_of_size 0 0, None) \<and>
   pcie_sim_transfer_linux linux_globals_init (Some null_handle) (Some []) 0 0 True 0 1000
     = (PCIE_SIM_ERROR_PARAM, linux_globals_init, None, None) \<and>
   fst (pcie_sim_transfer_linux linux_globals_init (Some null_handle) (Some [0]) 1 7 True 0 1000)
     = PCIE_SIM_SUCCESS \<and>
   pcie_sim_transfer_impl windows_globals_init (Some null_handle) (Some []) 0 0 True win_env_example
     = (PCIE_SIM_ERROR_PARAM, windows_globals_init, Some [], None, None) \<and>
   fst (pcie_sim_transfer_impl windows_globals_init (Some null_handle) (Some [0]) 1 7 True
          win_env_example) \<noteq> PCIE_SIM_ERROR_PARAM"
proof -
  note a = transfer_validation[of "req_of_size 32 0" "pcie_sim_probe 0" env_example
      "Some null_handle" "Some []" 0 linux_globals_init 0 True 0 1000
      "Some null_handle" "Some []" 0 windows_globals_init 0 True win_env_example]
  note b = transfer_validation[of "req_of_size 0 0" "pcie_sim_probe 0" env_example
      "Some null_handle" "Some [0]" 1 linux_globals_init 7 True 0 1000
      "Some null_handle" "Some [0]" 1 windows_globals_init 7 True win_env_example]
  have h1: "fst (pcie_sim_dma_transfer (pcie_sim_probe 0) (req_of_size 32 0) env_example) = 0"
    by (rule kernel_small_accepted)
  have h2: "\<not> (1 \<le> size_req (req_of_size 0 0))" by (simp add: req_of_size_def)
  have h3: "\<not> (Some null_handle = None \<or> Some [0 :: u8] = None \<or> (1 :: u64) = 0 \<or>
                MAX_DEVICES \<le> device_id (the (Some null_handle)))"
    by (simp add: null_handle_def MAX_DEVICES_def)
  have h4: "\<not> (Some null_handle = None \<or> Some [0 :: u8] = None \<or> (1 :: u64) = 0 \<or>
                (1 :: u64) > 1024 * 1024 \<or>
                device_id (the (Some null_handle)) < 0 \<or>
                MAX_DEVICES \<le> device_id (the (Some null_handle)))"
    by (simp add: null_handle_def MAX_DEVICES_def)
  show ?thesis using a b h1 h2 h3 h4 by blast
qed

text \<open>
  Claim C7, as amended.  For every failed transfer the statistics update increments
  \<open>total_errors\<close> and changes nothing else in the device: the statistics block has no
  per-scenario counters, and \<open>min_latency_ns\<close>, \<open>max_latency_ns\<close>, \<open>avg_latency_ns\<close>,
  \<open>total_transfers\<close> and \<open>total_bytes\<close> stay exactly as they were.
\<close>

theorem failed_transfer_statistics:
  "update_transfer_stats dev req lat False
     = dev\<lparr>stats := (stats dev)\<lparr>total_errors := total_errors (stats dev) + 1\<rparr>\<rparr> \<and>
   (fst (pcie_sim_dma_transfer dev req env) \<noteq> 0 \<longrightarrow>
      fst (snd (pcie_sim_dma_transfer dev req env))
        = dev\<lparr>stats := (stats dev)\<lparr>total_errors := total_errors (stats dev) + 1\<rparr>\<rparr>)"
  using kernel_transfer_fail[of dev req env] by (simp add: update_fail)

theorem failed_transfer_statistics_witness:
  "fst (pcie_sim_dma_transfer (scenario_device 1) (req_of_size 0 0) env_example) \<noteq> 0 \<and>
   fst (snd (pcie_sim_dma_transfer (scenario_device 1) (req_of_size 0 0) env_example))
     = (scenario_device 1)\<lparr>stats := (stats (scenario_device 1))
          \<lparr>total_errors := total_errors (stats (scenario_device 1)) + 1\<rparr>\<rparr>"
proof -
  have "fst (pcie_sim_dma_transfer (scenario_device 1) (req_of_size 0 0) env_example) \<noteq> 0"
    by (simp add: kernel_zero_rejected EINVAL_def)
  then show ?thesis
    using failed_transfer_statistics[of "scenario_device 1" "req_of_size 0 0" 0 env_example]
    by blast
qed

text \<open>Claim C7 as stated fails: with the time-out scenario active, a failed update changes
  \<open>total_errors\<close> alone, and the statistics it leaves do not depend on the scenario.\<close>

theorem no_scenario_counter:
  "error_scenario (scenario_device 1) = 1 \<and>
   update_transfer_stats (scenario_device 1) (req_of_size 4096 0) 0 False
     = (scenario_device 1)\<lparr>stats := zero_stats\<lparr>total_errors := 1\<rparr>\<rparr> \<and>
   stats (update_transfer_stats (scenario_device 1) (req_of_size 4096 0) 0 False)
     = stats (update_transfer_stats (scenario_device 2) (req_of_size 4096 0) 0 False)"
  by (simp add: update_fail scenario_device_def pcie_sim_probe_def zero_stats_def)

subsection \<open>Timing\<close>

lemma size_mb_bound:
  "unat ((sz + 1024 * 1024 - 1) div (1024 * 1024) :: u64) < 2 ^ 44"
proof -
  have "(unsigned (sz + 1024 * 1024 - 1) :: nat) < 2 ^ LENGTH(64)"
    by (rule unsigned_less)
  then have "unat (sz + 1024 * 1024 - 1) < 2 ^ 64" by simp
  then have "unat (sz + 1024 * 1024 - 1) div 1048576 < 2 ^ 44" by simp
  then show ?thesis by (simp add: unat_div)
qed

lemma linux_latency_to:
  "\<exists>m. 0 < m \<and> m < 2 ^ 44 \<and>
       unat (linux_transfer_latency sz PCIE_SIM_TO_DEVICE) = 10000 * m \<and>
       unat (linux_transfer_latency sz PCIE_SIM_FROM_DEVICE) = 12000 * m"
proof -
  define s :: u64 where
    "s = (if (sz + 1024 * 1024 - 1) div (1024 * 1024) = 0 then 1
          else (sz + 1024 * 1024 - 1) div (1024 * 1024))"
  define m where "m = unat s"
  have m0: "0 < m" unfolding m_def s_def by (simp add: unat_gt_0)
  have mb: "m < 2 ^ 44" unfolding m_def s_def using size_mb_bound[of sz] by simp
  have t: "unat (10000 * s) = 10000 * m"
  proof -
    have "unat (10000 :: u64) * unat s < 2 ^ 64" using mb by (simp add: m_def)
    then have "unat (10000 * s) = unat (10000 :: u64) * unat s"
      by (simp add: unat_mult_lem[THEN iffD1])
    then show ?thesis by (simp add: m_def)
  qed
  have t12: "unat (120000 * s) = 120000 * m"
  proof -
    have "unat (120000 :: u64) * unat s < 2 ^ 64" using mb by (simp add: m_def)
    then have "unat (120000 * s) = unat (120000 :: u64) * unat s"
      by (simp add: unat_mult_lem[THEN iffD1])
    then show ?thesis by (simp add: m_def)
  qed
  have e: "10000 * s * 12 = 120000 * s" by simp
  have f: "unat ((10000 * s * 12) div 10) = 12000 * m"
    unfolding e by (simp add: unat_div t12)
  have a: "linux_transfer_latency sz PCIE_SIM_TO_DEVICE = 10000 * s"
    by (simp add: linux_transfer_latency_def Let_def s_def PCIE_SIM_TO_DEVICE_def
                  PCIE_SIM_FROM_DEVICE_def)
  have b: "linux_transfer_latency sz PCIE_SIM_FROM_DEVICE = (10000 * s * 12) div 10"
    by (simp add: linux_transfer_latency_def Let_def s_def PCIE_SIM_FROM_DEVICE_def)
  show ?thesis using m0 mb t f a b by auto
qed

lemma linux_transfer_slept:
  "fst (pcie_sim_transfer_linux g handle buf sz dir lp ts te) = PCIE_SIM_SUCCESS \<Longrightarrow>
   snd (snd (snd (pcie_sim_transfer_linux g handle buf sz dir lp ts te)))
     = Some (linux_sim_delay (linux_transfer_latency sz dir))"
  by (simp add: pcie_sim_transfer_linux_def Let_def split: if_splits)

lemma kernel_transfer_delay:
  "fst (pcie_sim_dma_transfer dev req env) = 0 \<Longrightarrow>
   snd (snd (snd (pcie_sim_dma_transfer dev req env)))
     = Some (simulate_transfer_delay (size_req req) (jitter env))"
  by (simp add: pcie_sim_dma_transfer_def Let_def case_prod_beta EINVAL_def ENOMEM_def EFAULT_def
                validate_transfer_request_def split: if_splits)

lemma windows_transfer_delay:
  "fst (pcie_sim_transfer_impl g handle buf sz dir lp env) = PCIE_SIM_SUCCESS \<Longrightarrow>
   snd (snd (snd (snd (pcie_sim_transfer_impl g handle buf sz dir lp env))))
     = Some (simulate_transfer_delay_win (ucast sz) (rand1 env) (rand2 env))"
  by (simp add: pcie_sim_transfer_impl_def Let_def split: if_splits)

text \<open>
  Claim C4, as amended.  In the Linux simulator the latency computed for a from-device
  transfer is exactly 20% above the one computed for a to-device transfer of the same size,
  and that latency is what the transfer hands to the delay.  In the kernel and in the
  Windows simulator the delay of a successful transfer is a function of the size and the
  random draws only; the direction does not enter it.
\<close>

theorem direction_asymmetry:
  "unat (linux_transfer_latency sz PCIE_SIM_FROM_DEVICE) * 10
     = unat (linux_transfer_latency sz PCIE_SIM_TO_DEVICE) * 12 \<and>
   (fst (pcie_sim_transfer_linux g handle buf sz dir lp ts te) = PCIE_SIM_SUCCESS \<longrightarrow>
      snd (snd (snd (pcie_sim_transfer_linux g handle buf sz dir lp ts te)))
        = Some (linux_sim_delay (linux_transfer_latency sz dir))) \<and>
   (fst (pcie_sim_dma_transfer dev req env) = 0 \<longrightarrow>
      snd (snd (snd (pcie_sim_dma_transfer dev req env)))
        = Some (simulate_transfer_delay (size_req req) (jitter env))) \<and>
   (fst (pcie_sim_transfer_impl wg whandle wbuf wsz wdir wlp wenv) = PCIE_SIM_SUCCESS \<longrightarrow>
      snd (snd (snd (snd (pcie_sim_transfer_impl wg whandle wbuf wsz wdir wlp wenv))))
        = Some (simulate_transfer_delay_win (ucast wsz) (rand1 wenv) (rand2 wenv)))"
proof -
  obtain m where "unat (linux_transfer_latency sz PCIE_SIM_TO_DEVICE) = 10000 * m"
    "unat (linux_transfer_latency sz PCIE_SIM_FROM_DEVICE) = 12000 * m"
    using linux_latency_to[of sz] by blast
  then have "unat (linux_transfer_latency sz PCIE_SIM_FROM_DEVICE) * 10
     = unat (linux_transfer_latency sz PCIE_SIM_TO_DEVICE) * 12" by simp
  then show ?thesis
    using linux_transfer_slept[of g handle buf sz dir lp ts te]
      kernel_transfer_delay[of dev req env]
      windows_transfer_delay[of wg whandle wbuf wsz wdir wlp wenv]
    by blast
qed

lemma req_of_size_ok:
  "1 \<le> n \<Longrightarrow> n \<le> 1024 * 1024 \<Longrightarrow> dir \<le> 1 \<Longrightarrow>
   fst (pcie_sim_dma_transfer dev (req_of_size n dir) env_example) = 0"
  by (simp add: kernel_transfer_ok_iff kernel_validate_ok req_of_size_def env_example_def)

text \<open>Claim C4 as stated fails on the kernel: reading and writing 10240 bytes ask for the
  same 20 microseconds.\<close>

theorem kernel_delay_ignores_direction:
  "snd (snd (snd (pcie_sim_dma_transfer (pcie_sim_probe 0) (req_of_size 10240 1) env_example)))
     = Some 20 \<and>
   snd (snd (snd (pcie_sim_dma_transfer (pcie_sim_probe 0) (req_of_size 10240 0) env_example)))
     = Some 20"
proof -
  have a: "fst (pcie_sim_dma_transfer (pcie_sim_probe 0) (req_of_size 10240 1) env_example) = 0"
    by (rule req_of_size_ok) simp_all
  have b: "fst (pcie_sim_dma_transfer (pcie_sim_probe 0) (req_of_size 10240 0) env_example) = 0"
    by (rule req_of_size_ok) simp_all
  have d: "simulate_transfer_delay 10240 0 = 20"
    by (simp add: simulate_transfer_delay_def)
  show ?thesis
    unfolding kernel_transfer_delay[OF a] kernel_transfer_delay[OF b]
    using d by (simp add: req_of_size_def env_example_def)
qed

lemma windows_opened_eq:
  "windows_opened = \<lparr>g_devices = (replicate 8 \<lparr>active_win = False, stats_win = windows_fresh_stats\<rparr>)
             [0 := \<lparr>active_win = True, stats_win = windows_fresh_stats\<rparr>],
         g_initialized = True\<rparr>"
  "windows_opened_handle = Some \<lparr>fd = 0, device_id = 0, is_simulation = 0\<rparr>"
  by (simp_all add: windows_opened_def windows_opened_handle_def windows_open_fresh)

lemma windows_opened_transfer:
  "sz \<noteq> 0 \<Longrightarrow> sz \<le> 1024 * 1024 \<Longrightarrow>
   fst (pcie_sim_transfer_impl windows_opened windows_opened_handle (Some b) sz dir lp
          win_env_example) = PCIE_SIM_SUCCESS"
  by (simp add: windows_transfer_success windows_opened_eq MAX_DEVICES_def win_env_example_def
                not_less)

theorem direction_asymmetry_witness:
  "fst (pcie_sim_transfer_linux linux_globals_init (Some null_handle) (Some [0]) 1 1 True 0 1000)
     = PCIE_SIM_SUCCESS \<and>
   snd (snd (snd (pcie_sim_transfer_linux linux_globals_init (Some null_handle) (Some [0]) 1 1
                    True 0 1000)))
     = Some (linux_sim_delay (linux_transfer_latency 1 1)) \<and>
   fst (pcie_sim_dma_transfer (pcie_sim_probe 0) (req_of_size 10240 1) env_example) = 0 \<and>
   snd (snd (snd (pcie_sim_dma_transfer (pcie_sim_probe 0) (req_of_size 10240 1) env_example)))
     = Some (simulate_transfer_delay (size_req (req_of_size 10240 1)) (jitter env_example)) \<and>
   fst (pcie_sim_transfer_impl windows_opened windows_opened_handle (Some [0]) 1 1 True
          win_env_example) = PCIE_SIM_SUCCESS \<and>
   snd (snd (snd (snd (pcie_sim_transfer_impl windows_opened windows_opened_handle (Some [0]) 1 1
                         True win_env_example))))
     = Some (simulate_transfer_delay_win (ucast (1 :: u64)) (rand1 win_env_example)
               (rand2 win_env_example))"
proof -
  have h1: "fst (pcie_sim_transfer_linux linux_globals_init (Some null_handle) (Some [0]) 1 1
                   True 0 1000) = PCIE_SIM_SUCCESS"
    by (rule linux_transfer_accepts) (simp add: null_handle_def MAX_DEVICES_def)
  have h2: "fst (pcie_sim_dma_transfer (pcie_sim_probe 0) (req_of_size 10240 1) env_example) = 0"
    by (rule req_of_size_ok) simp_all
  have h3: "fst (pcie_sim_transfer_impl windows_opened windows_opened_handle (Some [0]) 1 1 True
          win_env_example) = PCIE_SIM_SUCCESS"
    by (rule windows_opened_transfer) simp_all
  note t = direction_asymmetry[of 1 linux_globals_init "Some null_handle" "Some [0]" 1 True 0 1000
      "pcie_sim_probe 0" "req_of_size 10240 1" env_example
      windows_opened windows_opened_handle "Some [0]" 1 1 True win_env_example]
  show ?thesis using t h1 h2 h3 by blast
qed

subsection \<open>Buffer contents\<close>

lemma kernel_from_device_buffer:
  assumes "fst (pcie_sim_dma_transfer dev req env) = 0" "direction req \<noteq> 0"
  shows "buffer (fst (snd (snd (pcie_sim_dma_transfer dev req env))))
           = Some (replicate (unat (size_req req)) 0xAA
                   @ drop (unat (size_req req)) (the (buffer req)))"
proof -
  have ok: "validate_transfer_request req = 0" "alloc_ok env"
    "unat (size_req req) \<le> length (the (buffer req))"
    using assms(1) by (simp_all add: kernel_transfer_ok_iff)
  show ?thesis
    using ok assms(2)
    by (simp add: pcie_sim_dma_transfer_def Let_def copy_to_user_def memset_def)
qed

lemma windows_transfer_buffer:
  "fst (pcie_sim_transfer_impl g handle buf sz dir lp env) = PCIE_SIM_SUCCESS \<Longrightarrow>
   fst (snd (snd (pcie_sim_transfer_impl g handle buf sz dir lp env)))
     = Some (if dir = PCIE_SIM_TO_DEVICE then the buf else memset (the buf) 0xAA (unat sz))"
  by (simp add: pcie_sim_transfer_impl_def Let_def split: if_splits)

text \<open>
  Claim C9.  After a successful from-device transfer the first \<open>size\<close> bytes of the caller's
  buffer, that is the whole destination of the transfer, are \<open>0xAA\<close>, both through the kernel
  DMA path and in the Windows simulator; bytes beyond \<open>size\<close> are untouched.
\<close>

theorem from_device_fills_buffer:
  "(fst (pcie_sim_dma_transfer dev req env) = 0 \<and> direction req = PCIE_SIM_FROM_DEVICE \<longrightarrow>
      unat (size_req req) \<le> length (the (buffer req)) \<and>
      buffer (fst (snd (snd (pcie_sim_dma_transfer dev req env))))
        = Some (replicate (unat (size_req req)) 0xAA
                @ drop (unat (size_req req)) (the (buffer req)))) \<and>
   (fst (pcie_sim_transfer_impl g handle buf sz PCIE_SIM_FROM_DEVICE lp wenv) = PCIE_SIM_SUCCESS \<longrightarrow>
      fst (snd (snd (pcie_sim_transfer_impl g handle buf sz PCIE_SIM_FROM_DEVICE lp wenv)))
        = Some (replicate (unat sz) 0xAA @ drop (unat sz) (the buf)))"
proof -
  have k: "unat (size_req req) \<le> length (the (buffer req)) \<and>
      buffer (fst (snd (snd (pcie_sim_dma_transfer dev req env))))
        = Some (replicate (unat (size_req req)) 0xAA
                @ drop (unat (size_req req)) (the (buffer req)))"
    if "fst (pcie_sim_dma_transfer dev req env) = 0" "direction req = PCIE_SIM_FROM_DEVICE"
  proof -
    have "direction req \<noteq> 0" using that(2) by (simp add: PCIE_SIM_FROM_DEVICE_def)
    from kernel_from_device_buffer[OF that(1) this] that(1) show ?thesis
      by (simp add: kernel_transfer_ok_iff)
  qed
  have w: "fst (snd (snd (pcie_sim_transfer_impl g handle buf sz PCIE_SIM_FROM_DEVICE lp wenv)))
        = Some (replicate (unat sz) 0xAA @ drop (unat sz) (the buf))"
    if "fst (pcie_sim_transfer_impl g handle buf sz PCIE_SIM_FROM_DEVICE lp wenv) = PCIE_SIM_SUCCESS"
    using windows_transfer_buffer[OF that]
    by (simp add: memset_def PCIE_SIM_FROM_DEVICE_def PCIE_SIM_TO_DEVICE_def)
  show ?thesis using k w by blast
qed

theorem from_device_fills_buffer_witness:
  "fst (pcie_sim_dma_transfer (pcie_sim_probe 0) (req_of_size 64 1) env_example) = 0 \<and>
   direction (req_of_size 64 1) = PCIE_SIM_FROM_DEVICE \<and>
   buffer (fst (snd (snd (pcie_sim_dma_transfer (pcie_sim_probe 0) (req_of_size 64 1) env_example))))
     = Some (replicate 64 0xAA) \<and>
   fst (pcie_sim_transfer_impl windows_opened windows_opened_handle (Some (replicate 64 0)) 64
          PCIE_SIM_FROM_DEVICE True win_env_example) = PCIE_SIM_SUCCESS \<and>
   fst (snd (snd (pcie_sim_transfer_impl windows_opened windows_opened_handle
                    (Some (replicate 64 0)) 64 PCIE_SIM_FROM_DEVICE True win_env_example)))
     = Some (replicate 64 0xAA)"
proof -
  have h1: "fst (pcie_sim_dma_transfer (pcie_sim_probe 0) (req_of_size 64 1) env_example) = 0"
    by (rule req_of_size_ok) simp_all
  have h2: "direction (req_of_size 64 1) = PCIE_SIM_FROM_DEVICE"
    by (simp add: req_of_size_def PCIE_SIM_FROM_DEVICE_def)
  have h3: "fst (pcie_sim_transfer_impl windows_opened windows_opened_handle
                   (Some (replicate 64 0)) 64 PCIE_SIM_FROM_DEVICE True win_env_example)
              = PCIE_SIM_SUCCESS"
    by (rule windows_opened_transfer) simp_all
  note t = from_device_fills_buffer[of "pcie_sim_probe 0" "req_of_size 64 1" env_example
      windows_opened windows_opened_handle "Some (replicate 64 0)" 64 True win_env_example]
  have e1: "replicate (unat (size_req (req_of_size 64 1))) (0xAA :: u8)
              @ drop (unat (size_req (req_of_size 64 1))) (the (buffer (req_of_size 64 1)))
            = replicate 64 0xAA"
    by (simp add: req_of_size_def)
  have e2: "replicate (unat (64 :: u64)) (0xAA :: u8)
              @ drop (unat (64 :: u64)) (the (Some (replicate 64 0)))
            = replicate 64 0xAA"
    by simp
  show ?thesis using t h1 h2 h3 unfolding e1 e2 by blast
qed

lemma active_win_update:
  "active_win ((xs[i := (xs ! i)\<lparr>stats_win := s\<rparr>]) ! j) = active_win (xs ! j)"
  by (cases "i < length xs"; cases "i = j"; simp add: list_update_beyond)

lemma active_linux_update:
  "active_linux ((xs[i := (xs ! i)\<lparr>stats_linux := s\<rparr>]) ! j) = active_linux (xs ! j)"
  by (cases "i < length xs"; cases "i = j"; simp add: list_update_beyond)

lemma windows_call_frame:
  "g_initialized (windows_call h g x) = g_initialized g \<and>
   length (g_devices (windows_call h g x)) = length (g_devices g) \<and>
   active_win (g_devices (windows_call h g x) ! j) = active_win (g_devices g ! j)"
  by (simp add: windows_call_def pcie_sim_transfer_impl_def Let_def active_win_update)

lemma windows_run_frame:
  "g_initialized (windows_run h g xs) = g_initialized g \<and>
   length (g_devices (windows_run h g xs)) = length (g_devices g) \<and>
   active_win (g_devices (windows_run h g xs) ! j) = active_win (g_devices g ! j)"
  by (induction xs arbitrary: g) (simp_all add: windows_call_frame)

lemma linux_call_frame:
  "g_sim_initialized (linux_call h g x) = g_sim_initialized g \<and>
   length (g_sim_devices (linux_call h g x)) = length (g_sim_devices g) \<and>
   active_linux (g_sim_devices (linux_call h g x) ! j) = active_linux (g_sim_devices g ! j)"
  by (simp add: linux_call_def pcie_sim_transfer_linux_def Let_def active_linux_update)

lemma linux_run_frame:
  "g_sim_initialized (linux_run h g xs) = g_sim_initialized g \<and>
   length (g_sim_devices (linux_run h g xs)) = length (g_sim_devices g) \<and>
   active_linux (g_sim_devices (linux_run h g xs) ! j) = active_linux (g_sim_devices g ! j)"
  by (induction xs arbitrary: g) (simp_all add: linux_call_frame)

lemma windows_open_success:
  assumes "fst (pcie_sim_open_impl g d hp ok mem) = PCIE_SIM_SUCCESS"
    "nat d < length (g_devices g)"
  shows "hp \<and> 0 \<le> d \<and> d < MAX_DEVICES \<and>
         g_initialized (fst (snd (pcie_sim_open_impl g d hp ok mem))) \<and>
         active_win (g_devices (fst (snd (pcie_sim_open_impl g d hp ok mem))) ! nat d)"
proof -
  have p: "hp" "0 \<le> d" "d < MAX_DEVICES"
    using assms(1) by (auto simp: pcie_sim_open_impl_def split: if_splits)
  have i: "fst (windows_sim_init ok g) = 0"
    using assms(1) p by (auto simp: pcie_sim_open_impl_def case_prod_beta split: if_splits)
  note r = windows_init_result[OF i]
  have l: "nat d < length (g_devices (snd (windows_sim_init ok g)))" using r assms(2) by simp
  show ?thesis
    using assms(1) p i r l
    by (auto simp: pcie_sim_open_impl_def case_prod_beta Let_def not_le
             split: if_splits option.splits)
qed

lemma windows_open_busy:
  assumes "g_initialized g" "active_win (g_devices g ! nat d)" "0 \<le> d" "d < MAX_DEVICES"
  shows "pcie_sim_open_impl g d True ok mem = (PCIE_SIM_ERROR_DEVICE, g, None)"
  using assms by (simp add: pcie_sim_open_impl_def windows_init_done not_le)

lemma linux_open_success:
  assumes "fst (pcie_sim_open_linux g d hp mem) = PCIE_SIM_SUCCESS"
    "nat d < length (g_sim_devices g)"
  shows "hp \<and> 0 \<le> d \<and> d < MAX_DEVICES \<and>
         g_sim_initialized (fst (snd (pcie_sim_open_linux g d hp mem))) \<and>
         length (g_sim_devices (fst (snd (pcie_sim_open_linux g d hp mem)))) = length (g_sim_devices g) \<and>
         active_linux (g_sim_devices (fst (snd (pcie_sim_open_linux g d hp mem))) ! nat d)"
  using assms
  by (auto simp: pcie_sim_open_linux_def linux_sim_init_def Let_def not_le
           split: if_splits option.splits)

lemma linux_open_again:
  assumes "g_sim_initialized g" "active_linux (g_sim_devices g ! nat d)" "0 \<le> d" "d < MAX_DEVICES"
  shows "pcie_sim_open_linux g d True (Some h0)
           = (PCIE_SIM_SUCCESS, g, Some (h0\<lparr>fd := - 1, device_id := d, is_simulation := 1\<rparr>))"
  using assms by (simp add: pcie_sim_open_linux_def linux_sim_init_def Let_def not_le)

text \<open>
  Claim C10.  On the Windows simulator, once a device has been opened, a second open of
  the same id (whatever transfers happened in between) returns the device error and
  changes nothing.  On the Linux simulator the second open succeeds and leaves the globals,
  hence the statistics of the device, exactly as they were.
\<close>

theorem second_open_differs:
  "(length (g_devices wg) = 8 \<and> fst (pcie_sim_open_impl wg d True ok1 m1) = PCIE_SIM_SUCCESS \<longrightarrow>
      pcie_sim_open_impl
        (windows_run (the (snd (snd (pcie_sim_open_impl wg d True ok1 m1))))
                     (fst (snd (pcie_sim_open_impl wg d True ok1 m1))) xs)
        d True ok2 m2
      = (PCIE_SIM_ERROR_DEVICE,
         windows_run (the (snd (snd (pcie_sim_open_impl wg d True ok1 m1))))
                     (fst (snd (pcie_sim_open_impl wg d True ok1 m1))) xs,
         None)) \<and>
   (length (g_sim_devices lg) = 8 \<and> fst (pcie_sim_open_linux lg e True n1) = PCIE_SIM_SUCCESS \<longrightarrow>
      pcie_sim_open_linux
        (linux_run (the (snd (snd (pcie_sim_open_linux lg e True n1))))
                   (fst (snd (pcie_sim_open_linux lg e True n1))) ys)
        e True (Some h0)
      = (PCIE_SIM_SUCCESS,
         linux_run (the (snd (snd (pcie_sim_open_linux lg e True n1))))
                   (fst (snd (pcie_sim_open_linux lg e True n1))) ys,
         Some (h0\<lparr>fd := - 1, device_id := e, is_simulation := 1\<rparr>)))"
proof -
  have w: "pcie_sim_open_impl
        (windows_run (the (snd (snd (pcie_sim_open_impl wg d True ok1 m1))))
                     (fst (snd (pcie_sim_open_impl wg d True ok1 m1))) xs)
        d True ok2 m2
      = (PCIE_SIM_ERROR_DEVICE,
         windows_run (the (snd (snd (pcie_sim_open_impl wg d True ok1 m1))))
                     (fst (snd (pcie_sim_open_impl wg d True ok1 m1))) xs,
         None)"
    if len: "length (g_devices wg) = 8"
      and s: "fst (pcie_sim_open_impl wg d True ok1 m1) = PCIE_SIM_SUCCESS"
  proof -
    have r: "0 \<le> d" "d < MAX_DEVICES"
      using s by (auto simp: pcie_sim_open_impl_def split: if_splits)
    have "nat d < length (g_devices wg)" using r len by (simp add: MAX_DEVICES_def)
    note o = windows_open_success[OF s this]
    show ?thesis
      by (rule windows_open_busy) (use o r in \<open>simp_all add: windows_run_frame\<close>)
  qed
  have l: "pcie_sim_open_linux
        (linux_run (the (snd (snd (pcie_sim_open_linux lg e True n1))))
                   (fst (snd (pcie_sim_open_linux lg e True n1))) ys)
        e True (Some h0)
      = (PCIE_SIM_SUCCESS,
         linux_run (the (snd (snd (pcie_sim_open_linux lg e True n1))))
                   (fst (snd (pcie_sim_open_linux lg e True n1))) ys,
         Some (h0\<lparr>fd := - 1, device_id := e, is_simulation := 1\<rparr>))"
    if len: "length (g_sim_devices lg) = 8"
      and s: "fst (pcie_sim_open_linux lg e True n1) = PCIE_SIM_SUCCESS"
  proof -
    have r: "0 \<le> e" "e < MAX_DEVICES"
      using s by (auto simp: pcie_sim_open_linux_def split: if_splits)
    have "nat e < length (g_sim_devices lg)" using r len by (simp add: MAX_DEVICES_def)
    note o = linux_open_success[OF s this]
    show ?thesis
      by (rule linux_open_again) (use o r in \<open>simp_all add: linux_run_frame\<close>)
  qed
  show ?thesis using w l by blast
qed

theorem second_open_differs_witness:
  "length (g_devices windows_globals_init) = 8 \<and>
   fst (pcie_sim_open_impl windows_globals_init 0 True (\<lambda>i. True) (Some null_handle))
     = PCIE_SIM_SUCCESS \<and>
   fst (pcie_sim_open_impl
          (windows_run (the (snd (snd (pcie_sim_open_impl windows_globals_init 0 True (\<lambda>i. True)
                                        (Some null_handle)))))
             (fst (snd (pcie_sim_open_impl windows_globals_init 0 True (\<lambda>i. True)
                          (Some null_handle))))
             [call64 10])
          0 True (\<lambda>i. True) (Some null_handle))
     = PCIE_SIM_ERROR_DEVICE \<and>
   length (g_sim_devices linux_globals_init) = 8 \<and>
   fst (pcie_sim_open_linux linux_globals_init 0 True (Some null_handle)) = PCIE_SIM_SUCCESS \<and>
   fst (pcie_sim_open_linux
          (linux_run (the (snd (snd (pcie_sim_open_linux linux_globals_init 0 True
                                      (Some null_handle)))))
             (fst (snd (pcie_sim_open_linux linux_globals_init 0 True (Some null_handle))))
             [call64 10])
          0 True (Some null_handle))
     = PCIE_SIM_SUCCESS"
proof -
  have h1: "length (g_devices windows_globals_init) = 8" by (simp add: windows_globals_init_def)
  have h2: "fst (pcie_sim_open_impl windows_globals_init 0 True (\<lambda>i. True) (Some null_handle))
     = PCIE_SIM_SUCCESS" by (simp add: windows_open_fresh)
  have h3: "length (g_sim_devices linux_globals_init) = 8" by (simp add: linux_globals_init_def)
  have h4: "fst (pcie_sim_open_linux linux_globals_init 0 True (Some null_handle))
     = PCIE_SIM_SUCCESS" by (simp add: linux_open_fresh)
  note t = second_open_differs[of windows_globals_init 0 "\<lambda>i. True" "Some null_handle"
      "[call64 10]" "\<lambda>i. True" "Some null_handle"
      linux_globals_init 0 "Some null_handle" "[call64 10]" null_handle]
  have a: "pcie_sim_open_impl
          (windows_run (the (snd (snd (pcie_sim_open_impl windows_globals_init 0 True (\<lambda>i. True)
                                        (Some null_handle)))))
             (fst (snd (pcie_sim_open_impl windows_globals_init 0 True (\<lambda>i. True)
                          (Some null_handle))))
             [call64 10])
          0 True (\<lambda>i. True) (Some null_handle)
     = (PCIE_SIM_ERROR_DEVICE,
         windows_run (the (snd (snd (pcie_sim_open_impl windows_globals_init 0 True (\<lambda>i. True)
                                        (Some null_handle)))))
             (fst (snd (pcie_sim_open_impl windows_globals_init 0 True (\<lambda>i. True)
                          (Some null_handle))))
             [call64 10], None)"
    using t h1 h2 by blast
  have b: "pcie_sim_open_linux
          (linux_run (the (snd (snd (pcie_sim_open_linux linux_globals_init 0 True
                                      (Some null_handle)))))
             (fst (snd (pcie_sim_open_linux linux_globals_init 0 True (Some null_handle))))
             [call64 10])
          0 True (Some null_handle)
     = (PCIE_SIM_SUCCESS,
         linux_run (the (snd (snd (pcie_sim_open_linux linux_globals_init 0 True
                                      (Some null_handle)))))
             (fst (snd (pcie_sim_open_linux linux_globals_init 0 True (Some null_handle))))
             [call64 10],
         Some (null_handle\<lparr>fd := - 1, device_id := 0, is_simulation := 1\<rparr>))"
    using t h3 h4 by blast
  show ?thesis unfolding a b using h1 h2 h3 h4 by simp
qed

theorem backend_statistics_agreement_witness:
  "call_ok (call64 10) \<and> call_ok (call64 20) \<and> call_ok (call64 60) \<and>
   length [call64 10, call64 20, call64 60] < 2 ^ 64 \<and>
   [call64 10, call64 20, call64 60] \<noteq> [] \<and>
   x_end (call64 10) - x_start (call64 10) \<noteq> 0 \<and>
   x_end (call64 20) - x_start (call64 20) \<noteq> 0 \<and>
   x_end (call64 60) - x_start (call64 60) \<noteq> 0 \<and>
   total_transfers (kernel_session [call64 10, call64 20, call64 60])
     = total_transfers (windows_session [call64 10, call64 20, call64 60]) \<and>
   total_bytes (kernel_session [call64 10, call64 20, call64 60])
     = total_bytes (windows_session [call64 10, call64 20, call64 60]) \<and>
   max_latency_ns (kernel_session [call64 10, call64 20, call64 60])
     = max_latency_ns (windows_session [call64 10, call64 20, call64 60]) \<and>
   min_latency_ns (linux_session [call64 10, call64 20, call64 60])
     = min_latency_ns (windows_session [call64 10, call64 20, call64 60]) \<and>
   min_latency_ns (kernel_session [call64 10, call64 20, call64 60])
     = min_latency_ns (linux_session [call64 10, call64 20, call64 60])"
proof -
  have h1: "\<forall>x \<in> set [call64 10, call64 20, call64 60]. call_ok x" by (simp add: call64_ok)
  have h2: "length [call64 10, call64 20, call64 60] < 2 ^ 64" by simp
  have h3: "[call64 10, call64 20, call64 60] \<noteq> []" by simp
  have h4: "\<forall>x \<in> set [call64 10, call64 20, call64 60]. x_end x - x_start x \<noteq> 0"
    by (simp add: call64_def)
  note t = backend_statistics_agreement[OF h1 h2]
  have m1: "min_latency_ns (linux_session [call64 10, call64 20, call64 60])
     = min_latency_ns (windows_session [call64 10, call64 20, call64 60])"
    using t h3 by blast
  have m2: "min_latency_ns (kernel_session [call64 10, call64 20, call64 60])
     = min_latency_ns (linux_session [call64 10, call64 20, call64 60])"
    using t h3 h4 by blast
  have c: "total_transfers (kernel_session [call64 10, call64 20, call64 60])
     = total_transfers (windows_session [call64 10, call64 20, call64 60])"
    "total_bytes (kernel_session [call64 10, call64 20, call64 60])
     = total_bytes (windows_session [call64 10, call64 20, call64 60])"
    "max_latency_ns (kernel_session [call64 10, call64 20, call64 60])
     = max_latency_ns (windows_session [call64 10, call64 20, call64 60])"
    using t by simp_all
  show ?thesis
    using c m1 m2 h4 by (simp add: call64_ok)
qed

section \<open>The running average in sessions of successful transfers\<close>

lemma kernel_ret_ok: "(kernel_ret dev x = 0) = call_ok x"
  by (simp add: kernel_ret_def kernel_transfer_ok_iff kernel_validate_ok call_ok_def)

lemma kernel_codes_ok:
  "(\<forall>c \<in> set (kernel_codes dev xs). c = 0) = (\<forall>x \<in> set xs. call_ok x)"
  by (induction xs arbitrary: dev) (simp_all add: kernel_ret_ok)

lemma linux_ret_ok:
  "device_id h < MAX_DEVICES \<Longrightarrow> (linux_ret h g x = PCIE_SIM_SUCCESS) = (x_size x \<noteq> 0)"
  by (simp add: linux_ret_def pcie_sim_transfer_linux_def Let_def not_le)

lemma linux_codes_ok:
  "device_id h < MAX_DEVICES \<Longrightarrow>
   (\<forall>c \<in> set (linux_codes h g xs). c = PCIE_SIM_SUCCESS) = (\<forall>x \<in> set xs. x_size x \<noteq> 0)"
  by (induction xs arbitrary: g) (simp_all add: linux_ret_ok)

lemma windows_ret_ok:
  assumes "0 \<le> device_id h" "device_id h < MAX_DEVICES" "active_win (g_devices g ! nat (device_id h))"
  shows "(windows_ret h g x = PCIE_SIM_SUCCESS) = (x_size x \<noteq> 0 \<and> x_size x \<le> 1024 * 1024)"
  using assms by (auto simp: windows_ret_def pcie_sim_transfer_impl_def Let_def not_le not_less)

lemma windows_codes_ok:
  assumes "0 \<le> device_id h" "device_id h < MAX_DEVICES" "active_win (g_devices g ! nat (device_id h))"
  shows "(\<forall>c \<in> set (windows_codes h g xs). c = PCIE_SIM_SUCCESS)
           = (\<forall>x \<in> set xs. x_size x \<noteq> 0 \<and> x_size x \<le> 1024 * 1024)"
  using assms(3)
proof (induction xs arbitrary: g)
  case Nil
  show ?case by simp
next
  case (Cons x xs)
  have a: "active_win (g_devices (windows_call h g x) ! nat (device_id h))"
    using Cons.prems by (simp add: windows_call_frame)
  show ?case
    using Cons.IH[OF a] windows_ret_ok[OF assms(1,2) Cons.prems, of x] by simp
qed

lemma kernel_session_codes_ok:
  "(\<forall>c \<in> set (kernel_session_codes xs). c = 0) = (\<forall>x \<in> set xs. call_ok x)"
  by (simp add: kernel_session_codes_def kernel_codes_ok)

lemma linux_session_codes_ok:
  "(\<forall>c \<in> set (linux_session_codes xs). c = PCIE_SIM_SUCCESS) = (\<forall>x \<in> set xs. x_size x \<noteq> 0)"
proof -
  have "device_id \<lparr>fd = - 1, device_id = 0, is_simulation = 1\<rparr> < MAX_DEVICES"
    by (simp add: MAX_DEVICES_def)
  from linux_codes_ok[OF this] show ?thesis
    by (simp add: linux_session_codes_def linux_open_fresh)
qed

lemma windows_session_codes_ok:
  "(\<forall>c \<in> set (windows_session_codes xs). c = PCIE_SIM_SUCCESS)
     = (\<forall>x \<in> set xs. x_size x \<noteq> 0 \<and> x_size x \<le> 1024 * 1024)"
proof -
  let ?h = "\<lparr>fd = 0, device_id = 0, is_simulation = 0\<rparr>"
  let ?g = "\<lparr>g_devices = (replicate 8 \<lparr>active_win = False, stats_win = windows_fresh_stats\<rparr>)
             [0 := \<lparr>active_win = True, stats_win = windows_fresh_stats\<rparr>],
         g_initialized = True\<rparr>"
  have a: "0 \<le> device_id ?h" "device_id ?h < MAX_DEVICES" by (simp_all add: MAX_DEVICES_def)
  have b: "active_win (g_devices ?g ! nat (device_id ?h))" by simp
  from windows_codes_ok[OF a b] show ?thesis
    by (simp add: windows_session_codes_def windows_open_fresh)
qed

lemma linux_fold_total:
  "total_transfers (foldl (\<lambda>s x. linux_update_stats s (x_size x) (lat_of x)) s xs)
     = total_transfers s + of_nat (length xs)"
  by (induction xs rule: rev_induct) (simp_all add: linux_update_fields)

lemma windows_fold_total:
  "total_transfers (foldl (\<lambda>s x. windows_update_stats s (x_size x) (lat_of x)) s xs)
     = total_transfers s + of_nat (length xs)"
  by (induction xs rule: rev_induct) (simp_all add: windows_update_fields)

lemma linux_session_total:
  "\<forall>x \<in> set xs. x_size x \<noteq> 0 \<Longrightarrow> total_transfers (linux_session xs) = of_nat (length xs)"
  by (simp add: linux_session_fold linux_fold_total zero_stats_def)

lemma windows_session_total:
  "\<forall>x \<in> set xs. x_size x \<noteq> 0 \<and> x_size x \<le> 1024 * 1024 \<Longrightarrow>
   total_transfers (windows_session xs) = of_nat (length xs)"
  by (simp add: windows_session_fold windows_fold_total windows_fresh_stats_def zero_stats_def)

lemma linux_session_snoc:
  assumes "\<forall>y \<in> set (xs @ [x]). x_size y \<noteq> 0"
  shows "linux_session (xs @ [x]) = linux_update_stats (linux_session xs) (x_size x) (lat_of x)"
proof -
  have b: "\<forall>y \<in> set xs. x_size y \<noteq> 0" using assms by simp
  show ?thesis by (simp add: linux_session_fold[OF assms] linux_session_fold[OF b])
qed

lemma windows_session_snoc:
  assumes "\<forall>y \<in> set (xs @ [x]). x_size y \<noteq> 0 \<and> x_size y \<le> 1024 * 1024"
  shows "windows_session (xs @ [x])
           = windows_update_stats (windows_session xs) (x_size x) (lat_of x)"
proof -
  have b: "\<forall>y \<in> set xs. x_size y \<noteq> 0 \<and> x_size y \<le> 1024 * 1024" using assms by simp
  show ?thesis by (simp add: windows_session_fold[OF assms] windows_session_fold[OF b])
qed

lemma linux_avg_step:
  assumes "\<forall>y \<in> set (xs @ [x]). x_size y \<noteq> 0" "length xs < 2 ^ 64"
  shows "avg_latency_ns (linux_session (xs @ [x]))
           = (if xs = [] then lat_of x
              else (avg_latency_ns (linux_session xs) + lat_of x) div 2)"
proof -
  have b: "\<forall>y \<in> set xs. x_size y \<noteq> 0" using assms(1) by simp
  have one: "(total_transfers (linux_session xs) + 1 = 1) = (xs = [])"
    unfolding linux_session_total[OF b] using succ_is_one[OF assms(2)] by simp
  show ?thesis
    unfolding linux_session_snoc[OF assms(1)] linux_update_fields using one by simp
qed

lemma linux_avg_is_spec:
  "\<forall>y \<in> set xs. x_size y \<noteq> 0 \<Longrightarrow> length xs < 2 ^ 64 \<Longrightarrow> xs \<noteq> [] \<Longrightarrow>
   avg_latency_ns (linux_session xs) = spec_running_avg (map (\<lambda>x. lat_of x) xs)"
proof (induction xs rule: rev_induct)
  case Nil
  then show ?case by simp
next
  case (snoc x xs)
  have ok: "\<forall>y \<in> set xs. x_size y \<noteq> 0" and len: "length xs < 2 ^ 64"
    using snoc.prems by simp_all
  note step = linux_avg_step[OF snoc.prems(1) len]
  show ?case
  proof (cases "xs = []")
    case True
    then show ?thesis unfolding step by (simp add: spec_running_avg_def)
  next
    case False
    then show ?thesis
      unfolding step using snoc.IH[OF ok len False] by (simp add: spec_running_avg_snoc)
  qed
qed

text \<open>
  Claim C1, as amended.  Take any sequence of fewer than \<open>2^64\<close> transfers issued on device 0
  after it has been probed (kernel) or opened from the initial state (simulators).  If
  every transfer of the sequence returns success on the Linux simulator, the Linux average
  follows the policy of the specification: the first transfer sets it to its latency and
  every later one to \<open>(avg + latency) div 2\<close> in 64-bit unsigned arithmetic.  If every
  transfer returns 0 on the kernel, each transfer after the first sets the kernel average
  to \<open>(avg + latency) div 2\<close>.  If every transfer returns success on the Windows simulator,
  the first sets the Windows average to its latency and each later one to the cumulative
  mean \<open>(avg * (n - 1) + latency) div n\<close>, \<open>n\<close> being the new number of transfers.
\<close>

theorem running_average_per_backend:
  assumes "length (xs @ [x]) < 2 ^ 64"
  shows "((\<forall>c \<in> set (linux_session_codes (xs @ [x])). c = PCIE_SIM_SUCCESS) \<longrightarrow>
            avg_latency_ns (linux_session (xs @ [x]))
              = (if xs = [] then x_end x - x_start x
                 else (avg_latency_ns (linux_session xs) + (x_end x - x_start x)) div 2) \<and>
            avg_latency_ns (linux_session (xs @ [x]))
              = spec_running_avg (map (\<lambda>y. x_end y - x_start y) (xs @ [x]))) \<and>
         ((\<forall>c \<in> set (kernel_session_codes (xs @ [x])). c = 0) \<and> xs \<noteq> [] \<longrightarrow>
            avg_latency_ns (kernel_session (xs @ [x]))
              = (avg_latency_ns (kernel_session xs) + (x_end x - x_start x)) div 2) \<and>
         ((\<forall>c \<in> set (windows_session_codes (xs @ [x])). c = PCIE_SIM_SUCCESS) \<longrightarrow>
            avg_latency_ns (windows_session (xs @ [x]))
              = (if xs = [] then x_end x - x_start x
                 else (avg_latency_ns (windows_session xs) * of_nat (length xs)
                         + (x_end x - x_start x)) div (of_nat (length xs) + 1)))"
proof -
  have len: "length xs < 2 ^ 64" using assms by simp
  have one: "((of_nat (length xs) :: u64) + 1 = 1) = (xs = [])"
    using succ_is_one[OF len] by simp
  have l: "avg_latency_ns (linux_session (xs @ [x]))
              = (if xs = [] then lat_of x
                 else (avg_latency_ns (linux_session xs) + lat_of x) div 2) \<and>
           avg_latency_ns (linux_session (xs @ [x]))
              = spec_running_avg (map (\<lambda>y. lat_of y) (xs @ [x]))"
    if "\<forall>c \<in> set (linux_session_codes (xs @ [x])). c = PCIE_SIM_SUCCESS"
  proof -
    have s: "\<forall>y \<in> set (xs @ [x]). x_size y \<noteq> 0"
      using that by (simp only: linux_session_codes_ok)
    have "avg_latency_ns (linux_session (xs @ [x]))
              = spec_running_avg (map (\<lambda>y. lat_of y) (xs @ [x]))"
      by (rule linux_avg_is_spec[OF s assms]) simp
    then show ?thesis using linux_avg_step[OF s len] by simp
  qed
  have k: "avg_latency_ns (kernel_session (xs @ [x]))
              = (avg_latency_ns (kernel_session xs) + lat_of x) div 2"
    if "\<forall>c \<in> set (kernel_session_codes (xs @ [x])). c = 0"
  proof -
    have "\<forall>y \<in> set (xs @ [x]). call_ok y"
      using that by (simp only: kernel_session_codes_ok)
    then have "call_ok x" by simp
    then show ?thesis by (rule kernel_session_snoc)
  qed
  have w: "avg_latency_ns (windows_session (xs @ [x]))
              = (if xs = [] then lat_of x
                 else (avg_latency_ns (windows_session xs) * of_nat (length xs)
                         + lat_of x) div (of_nat (length xs) + 1))"
    if "\<forall>c \<in> set (windows_session_codes (xs @ [x])). c = PCIE_SIM_SUCCESS"
  proof -
    have s: "\<forall>y \<in> set (xs @ [x]). x_size y \<noteq> 0 \<and> x_size y \<le> 1024 * 1024"
      using that by (simp only: windows_session_codes_ok)
    then have b: "\<forall>y \<in> set xs. x_size y \<noteq> 0 \<and> x_size y \<le> 1024 * 1024" by simp
    show ?thesis
      unfolding windows_session_snoc[OF s] windows_update_fields windows_session_total[OF b]
      using one by simp
  qed
  show ?thesis using l k w by blast
qed

lemma call_big_not_ok: "\<not> call_ok (call_big lat)"
  by (simp add: call_ok_def call_big_def)

theorem running_average_per_backend_witness:
  "length ([call64 10, call64 20] @ [call64 60]) < 2 ^ 64 \<and>
   linux_session_codes ([call64 10, call64 20] @ [call64 60])
     = [PCIE_SIM_SUCCESS, PCIE_SIM_SUCCESS, PCIE_SIM_SUCCESS] \<and>
   kernel_session_codes ([call64 10, call64 20] @ [call64 60]) = [0, 0, 0] \<and>
   windows_session_codes ([call64 10, call64 20] @ [call64 60])
     = [PCIE_SIM_SUCCESS, PCIE_SIM_SUCCESS, PCIE_SIM_SUCCESS] \<and>
   [call64 10, call64 20] \<noteq> [] \<and>
   avg_latency_ns (linux_session ([call64 10, call64 20] @ [call64 60]))
     = (avg_latency_ns (linux_session [call64 10, call64 20]) + 60) div 2 \<and>
   avg_latency_ns (kernel_session ([call64 10, call64 20] @ [call64 60]))
     = (avg_latency_ns (kernel_session [call64 10, call64 20]) + 60) div 2 \<and>
   avg_latency_ns (windows_session ([call64 10, call64 20] @ [call64 60]))
     = (avg_latency_ns (windows_session [call64 10, call64 20]) * 2 + 60) div 3 \<and>
   length ([call_big 10, call_big 20] @ [call_big 60]) < 2 ^ 64 \<and>
   linux_session_codes ([call_big 10, call_big 20] @ [call_big 60])
     = [PCIE_SIM_SUCCESS, PCIE_SIM_SUCCESS, PCIE_SIM_SUCCESS] \<and>
   avg_latency_ns (linux_session ([call_big 10, call_big 20] @ [call_big 60]))
     = (avg_latency_ns (linux_session [call_big 10, call_big 20]) + 60) div 2"
proof -
  have h: "length ([call64 10, call64 20] @ [call64 60]) < 2 ^ 64" by simp
  have hb: "length ([call_big 10, call_big 20] @ [call_big 60]) < 2 ^ 64" by simp
  have sz: "x_size (call64 lat) \<noteq> 0 \<and> x_size (call64 lat) \<le> 1024 * 1024" for lat
    by (simp add: call64_def)
  have szb: "x_size (call_big lat) \<noteq> 0" for lat by (simp add: call_big_def)
  have h64: "device_id \<lparr>fd = - 1, device_id = 0, is_simulation = 1\<rparr> < MAX_DEVICES"
    by (simp add: MAX_DEVICES_def)
  have cl: "linux_session_codes ([call64 10, call64 20] @ [call64 60])
     = [PCIE_SIM_SUCCESS, PCIE_SIM_SUCCESS, PCIE_SIM_SUCCESS]"
    by (simp add: linux_session_codes_def linux_open_fresh linux_ret_ok[OF h64] sz)
  have clb: "linux_session_codes ([call_big 10, call_big 20] @ [call_big 60])
     = [PCIE_SIM_SUCCESS, PCIE_SIM_SUCCESS, PCIE_SIM_SUCCESS]"
    by (simp add: linux_session_codes_def linux_open_fresh linux_ret_ok[OF h64] szb)
  have ck: "kernel_session_codes ([call64 10, call64 20] @ [call64 60]) = [0, 0, 0]"
    by (simp add: kernel_session_codes_def kernel_ret_ok call64_ok)
  have aw: "active_win (g_devices (windows_call \<lparr>fd = 0, device_id = 0, is_simulation = 0\<rparr> g x) ! 0)
              = active_win (g_devices g ! 0)" for g x
    by (simp add: windows_call_frame)
  have rw: "active_win (g_devices g ! 0) \<Longrightarrow>
            windows_ret \<lparr>fd = 0, device_id = 0, is_simulation = 0\<rparr> g (call64 lat) = PCIE_SIM_SUCCESS"
    for g lat
    using windows_ret_ok[of "\<lparr>fd = 0, device_id = 0, is_simulation = 0\<rparr>" g "call64 lat"] sz[of lat]
    by (simp add: MAX_DEVICES_def)
  have cw: "windows_session_codes ([call64 10, call64 20] @ [call64 60])
     = [PCIE_SIM_SUCCESS, PCIE_SIM_SUCCESS, PCIE_SIM_SUCCESS]"
    by (simp add: windows_session_codes_def windows_open_fresh rw aw)
  note t = running_average_per_backend[OF h]
  note tb = running_average_per_backend[OF hb]
  have l: "x_end (call64 60) - x_start (call64 60) = 60" by (rule call64_fields)
  have lb: "x_end (call_big 60) - x_start (call_big 60) = 60" by (simp add: call_big_def)
  have ne: "[call64 10, call64 20] \<noteq> []" "[call_big 10, call_big 20] \<noteq> []" by simp_all
  have a1: "avg_latency_ns (linux_session ([call64 10, call64 20] @ [call64 60]))
     = (avg_latency_ns (linux_session [call64 10, call64 20]) + 60) div 2"
    using t cl ne unfolding l by simp
  have a2: "avg_latency_ns (kernel_session ([call64 10, call64 20] @ [call64 60]))
     = (avg_latency_ns (kernel_session [call64 10, call64 20]) + 60) div 2"
    using t ck ne unfolding l by simp
  have a3: "avg_latency_ns (windows_session ([call64 10, call64 20] @ [call64 60]))
     = (avg_latency_ns (windows_session [call64 10, call64 20]) * 2 + 60) div 3"
    using t cw ne unfolding l by simp
  have a4: "avg_latency_ns (linux_session ([call_big 10, call_big 20] @ [call_big 60]))
     = (avg_latency_ns (linux_session [call_big 10, call_big 20]) + 60) div 2"
    using tb clb ne unfolding lb by simp
  show ?thesis using h hb cl ck cw clb ne a1 a2 a3 a4 by blast
qed

end
